theory Spec2Isabelle
  imports Main
begin

section \<open>Data model\<close>

text \<open>
  A \<open>Path\<close> is a JavaScript array of numbers; the indexes of a path are integers, and a
  decrement may take one below zero, so the elements are \<open>int\<close>. Offsets, positions and
  lengths are integers as well, within the range where a JavaScript number is exact. A
  string is the list of its code units, which the functions below only compare and count.
\<close>

type_synonym path = "int list"

text \<open>
  The ways a call can end other than by returning. The first three are the errors thrown
  by \<open>Path.next\<close> and \<open>Path.previous\<close>. The last two mark values
  that an integer list cannot hold: a compound assignment past the end of an array
  stores \<open>undefined + n = NaN\<close> there, and a non-null assertion (\<open>!\<close>) on \<open>null\<close>
  lets \<open>null\<close> through as a path. The model stops at these points instead of following
  such a value.
\<close>

datatype abort =
    RootHasNoNext
  | RootHasNoPrevious
  | FirstChildHasNoPrevious
  | NonIntegerPath
  | NullPath

datatype text_direction = Forward | Backward

text \<open>
  The \<open>affinity\<close> property of the options object: absent (\<open>undefined\<close>), \<open>null\<close>, or a
  direction. The destructuring default \<open>{ affinity = 'forward' }\<close> replaces only an
  absent property.
\<close>

datatype options = Absent | Null | Affinity text_direction

fun affinity_of :: "options \<Rightarrow> text_direction option" where
  "affinity_of Absent = Some Forward"
| "affinity_of Null = None"
| "affinity_of (Affinity d) = Some d"

text \<open>
  Modelled from the spec: the \<open>Operation\<close> union is declared outside the files at hand.
  \<open>PathTransformingOperation\<close> is the five structural kinds, each with a \<open>path\<close>;
  \<open>merge_node\<close> and \<open>split_node\<close> carry a \<open>position\<close>, \<open>move_node\<close> a \<open>newPath\<close>.
  \<open>PointTransformingOperation\<close> and \<open>RangeTransformingOperation\<close> add \<open>insert_text\<close> and
  \<open>remove_text\<close>, with a \<open>path\<close>, an \<open>offset\<close> and a \<open>text\<close>. Nodes and properties
  carried by an operation are read by none of the functions below and are left out.
\<close>

datatype path_operation =
    Insert_node path
  | Remove_node path
  | Merge_node path int
  | Split_node path int
  | Move_node path path

datatype operation =
    Node_op path_operation
  | Insert_text path int string
  | Remove_text path int string

fun path_of :: "path_operation \<Rightarrow> path" where
  "path_of (Insert_node p) = p"
| "path_of (Remove_node p) = p"
| "path_of (Merge_node p _) = p"
| "path_of (Split_node p _) = p"
| "path_of (Move_node p _) = p"

fun op_path :: "operation \<Rightarrow> path" where
  "op_path (Node_op n) = path_of n"
| "op_path (Insert_text p _ _) = p"
| "op_path (Remove_text p _ _) = p"

text \<open>Modelled from the spec: \<open>Operation.transformsPaths\<close>, true exactly for the five
  structural kinds.\<close>

fun transformsPaths :: "operation \<Rightarrow> bool" where
  "transformsPaths (Node_op _) = True"
| "transformsPaths _ = False"

section \<open>JavaScript arrays and strings\<close>

text \<open>\<open>xs[i]\<close>: \<open>None\<close> is \<open>undefined\<close>, the value read outside the array.\<close>

definition at_index :: "'a list \<Rightarrow> int \<Rightarrow> 'a option" where
  "at_index xs i = (if 0 \<le> i \<and> nat i < length xs then Some (xs ! nat i) else None)"

text \<open>\<open>a < b\<close> and \<open>a >= b\<close> on numbers: false as soon as an operand is \<open>undefined\<close>.\<close>

fun js_lt :: "int option \<Rightarrow> int option \<Rightarrow> bool" where
  "js_lt (Some a) (Some b) = (a < b)"
| "js_lt _ _ = False"

fun js_ge :: "int option \<Rightarrow> int option \<Rightarrow> bool" where
  "js_ge (Some a) (Some b) = (a \<ge> b)"
| "js_ge _ _ = False"

text \<open>
  \<open>xs[i] += d\<close>. A negative \<open>i\<close> names a property that is not an element, and the
  elements stay as they are; past the end the array would grow by \<open>NaN\<close>.
\<close>

definition assign_add :: "path \<Rightarrow> int \<Rightarrow> int \<Rightarrow> abort + path" where
  "assign_add xs i d =
     (if i < 0 then Inr xs
      else if nat i < length xs then Inr (xs[nat i := xs ! nat i + d])
      else Inl NonIntegerPath)"

definition and_then :: "abort + 'a \<Rightarrow> ('a \<Rightarrow> abort + 'b) \<Rightarrow> abort + 'b" where
  "and_then r f = (case r of Inl e \<Rightarrow> Inl e | Inr x \<Rightarrow> f x)"

definition returning :: "abort + 'a \<Rightarrow> abort + 'a option" where
  "returning r = (case r of Inl e \<Rightarrow> Inl e | Inr x \<Rightarrow> Inr (Some x))"

text \<open>
  The index that \<open>slice\<close> makes of an argument: a negative one counts from the end, and
  both are clamped to the length.
\<close>

definition rel_index :: "nat \<Rightarrow> int \<Rightarrow> nat" where
  "rel_index len k = (if k < 0 then nat (max (int len + k) 0) else min (nat k) len)"

definition slice :: "'a list \<Rightarrow> int \<Rightarrow> int \<Rightarrow> 'a list" where
  "slice xs b e =
     (let from = rel_index (length xs) b; to = rel_index (length xs) e
      in take (to - from) (drop from xs))"

definition slice_from :: "'a list \<Rightarrow> int \<Rightarrow> 'a list" where
  "slice_from xs b = drop (rel_index (length xs) b) xs"

text \<open>\<open>s.charAt(i)\<close>: the one-character string at \<open>i\<close>, or the empty string.\<close>

definition charAt :: "string \<Rightarrow> int \<Rightarrow> string" where
  "charAt s i = (if 0 \<le> i \<and> i < int (length s) then [s ! nat i] else [])"

section \<open>Path algebra (packages/slate/src/interfaces/path.ts)\<close>

function commonDepth_loop :: "path \<Rightarrow> path \<Rightarrow> nat \<Rightarrow> nat \<Rightarrow> nat" where
  "commonDepth_loop p a m i =
     (if i < m \<and> p ! i = a ! i then commonDepth_loop p a m (Suc i) else i)"
  by pat_completeness auto
termination
  by (relation "measure (\<lambda>(p, a, m, i). m - i)") auto

declare commonDepth_loop.simps [simp del]

definition commonDepth :: "path \<Rightarrow> path \<Rightarrow> nat" where
  "commonDepth p a = commonDepth_loop p a (min (length p) (length a)) 0"

function compare_loop :: "path \<Rightarrow> path \<Rightarrow> nat \<Rightarrow> nat \<Rightarrow> int" where
  "compare_loop p a m i =
     (if i < m then
        (if p ! i < a ! i then - 1
         else if p ! i > a ! i then 1
         else compare_loop p a m (Suc i))
      else 0)"
  by pat_completeness auto
termination
  by (relation "measure (\<lambda>(p, a, m, i). m - i)") auto

declare compare_loop.simps [simp del]

definition compare :: "path \<Rightarrow> path \<Rightarrow> int" where
  "compare p a = compare_loop p a (min (length p) (length a)) 0"

definition equals :: "path \<Rightarrow> path \<Rightarrow> bool" where
  "equals p a = (length p = length a \<and> list_all (\<lambda>i. p ! i = a ! i) [0..<length p])"

definition endsBefore :: "path \<Rightarrow> path \<Rightarrow> bool" where
  "endsBefore p another =
     (let i = int (length p) - 1;
          as = slice p 0 i;
          bs = slice another 0 i;
          av = at_index p i;
          bv = at_index another i
      in equals as bs \<and> js_lt av bv)"

definition isAncestor :: "path \<Rightarrow> path \<Rightarrow> bool" where
  "isAncestor p a = (length p < length a \<and> compare p a = 0)"

definition isDescendant :: "path \<Rightarrow> path \<Rightarrow> bool" where
  "isDescendant p a = (length p > length a \<and> compare p a = 0)"

definition next_path :: "path \<Rightarrow> abort + path" where
  "next_path p =
     (if length p = 0 then Inl RootHasNoNext
      else let l = p ! (length p - 1) in Inr (slice p 0 (- 1) @ [l + 1]))"

definition previous :: "path \<Rightarrow> abort + path" where
  "previous p =
     (if length p = 0 then Inl RootHasNoPrevious
      else let l = p ! (length p - 1) in
        if l \<le> 0 then Inl FirstChildHasNoPrevious
        else Inr (slice p 0 (- 1) @ [l - 1]))"

definition transform :: "path \<Rightarrow> path_operation \<Rightarrow> options \<Rightarrow> abort + path option" where
  "transform p operation opts =
    (let op = path_of operation; affinity = affinity_of opts in
     if length op > length p \<and>
        (case operation of Move_node _ newOp \<Rightarrow> length newOp > length p | _ \<Rightarrow> True)
     then Inr (Some p)
     else
       let cd = commonDepth p op;
           opDepth = int (length op) - 1;
           opEqOrAbovePath = (cd = length op);
           opEqualPath = (cd = length p);
           opEndsBeforePath = (int cd = opDepth \<and> js_lt (at_index op (int cd)) (at_index p (int cd)))
       in
       if \<not> opEqOrAbovePath \<and> \<not> opEndsBeforePath \<and>
          (case operation of Move_node _ _ \<Rightarrow> False | _ \<Rightarrow> True)
       then Inr (Some p)
       else
         (case operation of
            Insert_node _ \<Rightarrow>
              (if opEqOrAbovePath \<or> opEndsBeforePath
               then returning (assign_add p opDepth 1)
               else Inr (Some p))
          | Remove_node _ \<Rightarrow>
              (if opEqOrAbovePath then Inr None
               else if opEndsBeforePath then returning (assign_add p opDepth (- 1))
               else Inr (Some p))
          | Merge_node _ position \<Rightarrow>
              (if opEqualPath \<or> opEndsBeforePath
               then returning (assign_add p opDepth (- 1))
               else if opEqOrAbovePath
               then returning (and_then (assign_add p opDepth (- 1))
                      (\<lambda>out. assign_add out (int (length op)) position))
               else Inr (Some p))
          | Split_node _ position \<Rightarrow>
              (if opEqualPath then
                 (case affinity of
                    Some Forward \<Rightarrow> returning (assign_add p opDepth 1)
                  | Some Backward \<Rightarrow> Inr (Some p)
                  | None \<Rightarrow> Inr None)
               else if opEndsBeforePath then returning (assign_add p opDepth 1)
               else if opEqOrAbovePath \<and> js_ge (at_index p (int cd)) (Some position)
               then returning (and_then (assign_add p opDepth 1)
                      (\<lambda>out. assign_add out (int (length op)) (- position)))
               else Inr (Some p))
          | Move_node _ newOp \<Rightarrow>
              (if opEqOrAbovePath then
                 (let commonDepthBetween = commonDepth op newOp in
                  if commonDepthBetween = length op then Inr (Some p)
                  else
                    let out = newOp @ drop (length op) p;
                        opEndsBeforeNewOp =
                          (int commonDepthBetween = opDepth \<and>
                           js_lt (at_index op (int commonDepthBetween))
                                 (at_index newOp (int commonDepthBetween)))
                    in if opEndsBeforeNewOp \<and> length op < length newOp
                       then returning (assign_add out opDepth (- 1))
                       else Inr (Some out))
               else
                 (let newCommonDepth = commonDepth p newOp;
                      newOpDepth = int (length newOp) - 1;
                      newOpEqOrAbovePath = (newCommonDepth = length newOp);
                      newOpEndsBeforePath =
                        (int newCommonDepth = newOpDepth \<and>
                         js_lt (at_index newOp (int newCommonDepth))
                               (at_index p (int newCommonDepth)))
                  in
                  if opEndsBeforePath then
                    (if newOpEndsBeforePath \<and> opDepth = newOpDepth then Inr (Some p)
                     else if (newOpEqOrAbovePath \<or> newOpEndsBeforePath) \<and> opDepth \<noteq> newOpDepth
                     then returning (and_then (assign_add p opDepth (- 1))
                            (\<lambda>out. assign_add out newOpDepth 1))
                     else returning (assign_add p opDepth (- 1)))
                  else if newOpEqOrAbovePath \<or> newOpEndsBeforePath
                  then returning (assign_add p newOpDepth 1)
                  else Inr (Some p)))))"


section \<open>Path algebra, second copy (unnamed/part_000)\<close>

text \<open>
  The second file declares the same \<open>Path\<close> object. Its \<open>commonDepth\<close> is the same
  text as the one above and is shared; \<open>previous\<close> and \<open>transform\<close> differ and are
  embedded again. Its \<open>transform\<close> also accepts \<open>null\<close> for the path.
\<close>

definition previous_part_000 :: "path \<Rightarrow> abort + path" where
  "previous_part_000 p =
     (if length p = 0 then Inl RootHasNoPrevious
      else let l = p ! (length p - 1) in
        if l \<le> 0 then Inl FirstChildHasNoPrevious
        else Inr (p[length p - 1 := l]))"

definition transform_part_000 ::
  "path option \<Rightarrow> path_operation \<Rightarrow> options \<Rightarrow> abort + path option" where
  "transform_part_000 path operation opts =
    (case path of
       None \<Rightarrow> Inr None
     | Some p \<Rightarrow>
    (let op = path_of operation; affinity = affinity_of opts in
     if length op > length p \<and>
        (case operation of Move_node _ newOp \<Rightarrow> length newOp > length p | _ \<Rightarrow> True)
     then Inr (Some p)
     else
       let cd = commonDepth p op;
           opDepth = int (length op) - 1;
           opEqOrAbovePath = (cd = length op);
           opEqualPath = (cd = length p);
           opEndsBeforePath = (int cd = opDepth \<and> js_lt (at_index op (int cd)) (at_index p (int cd)))
       in
         (case operation of
            Insert_node _ \<Rightarrow>
              (if opEqOrAbovePath \<or> opEndsBeforePath
               then returning (assign_add p opDepth 1)
               else Inr (Some p))
          | Remove_node _ \<Rightarrow>
              (if opEqOrAbovePath then Inr None
               else if opEndsBeforePath then returning (assign_add p opDepth (- 1))
               else Inr (Some p))
          | Merge_node _ position \<Rightarrow>
              (if opEqOrAbovePath \<or> opEndsBeforePath
               then returning (and_then (assign_add p opDepth (- 1))
                      (\<lambda>out. assign_add out (int (length op)) position))
               else if opEqOrAbovePath
               then returning (assign_add p opDepth (- 1))
               else Inr (Some p))
          | Split_node _ position \<Rightarrow>
              (if opEqualPath then
                 (case affinity of
                    Some Forward \<Rightarrow> returning (assign_add p opDepth 1)
                  | Some Backward \<Rightarrow> Inr (Some p)
                  | None \<Rightarrow> Inr None)
               else if opEqOrAbovePath then
                 (if js_ge (at_index p (int cd)) (Some position)
                  then returning (and_then (assign_add p opDepth 1)
                         (\<lambda>out. assign_add out (int (length op)) (- position)))
                  else Inr (Some p))
               else if opEndsBeforePath then returning (assign_add p opDepth 1)
               else Inr (Some p))
          | Move_node _ newOp \<Rightarrow>
              (if opEqOrAbovePath then
                 (let cdBetween = commonDepth op newOp in
                  if cdBetween = length newOp then Inr (Some p)
                  else
                    let out = newOp @ drop cd p;
                        opEndsBeforeNewOp =
                          (int cdBetween = opDepth \<and>
                           js_lt (at_index op (int cdBetween)) (at_index newOp (int cdBetween)))
                    in if opEndsBeforeNewOp \<and> length op < length newOp
                       then returning (assign_add out opDepth (- 1))
                       else Inr (Some out))
               else
                 (let newCd = commonDepth p newOp;
                      newOpDepth = int (length newOp) - 1;
                      newOpEqOrAbovePath = (newCd = length newOp);
                      newOpEndsBeforePath =
                        (int newCd = newOpDepth \<and>
                         js_lt (at_index newOp (int newCd)) (at_index p (int newCd)))
                  in
                  if newOpEqOrAbovePath \<or> newOpEndsBeforePath then
                    (if opEndsBeforePath then
                       (if opDepth = newOpDepth then Inr (Some p)
                        else returning (and_then (assign_add p opDepth (- 1))
                               (\<lambda>out. assign_add out newOpDepth 1)))
                     else returning (assign_add p newOpDepth 1))
                  else if opEndsBeforePath then returning (assign_add p opDepth (- 1))
                  else Inr (Some p))))))"

section \<open>Point algebra (unnamed/part_001)\<close>

record point =
  point_path :: path
  offset :: int

definition point_equals :: "point \<Rightarrow> point \<Rightarrow> bool" where
  "point_equals pt another =
     (offset pt = offset another \<and> equals (point_path pt) (point_path another))"

definition point_transform :: "point \<Rightarrow> operation \<Rightarrow> options \<Rightarrow> abort + point option" where
  "point_transform pt op opts =
    (let affinity = affinity_of opts;
         p = point_path pt;
         off = offset pt;
         by_path =
           (case (case op of Node_op n \<Rightarrow> transform p n opts | _ \<Rightarrow> Inr (Some p)) of
              Inl e \<Rightarrow> Inl e
            | Inr None \<Rightarrow> Inr None
            | Inr (Some outPath) \<Rightarrow> Inr (Some \<lparr>point_path = outPath, offset = off\<rparr>))
     in
     if equals (op_path op) p then
       (case op of
          Insert_text _ o_offset o_text \<Rightarrow>
            (if o_offset < off \<or> (o_offset = off \<and> affinity = Some Forward)
             then Inr (Some \<lparr>point_path = p, offset = off + int (length o_text)\<rparr>)
             else Inr (Some pt))
        | Node_op (Merge_node _ position) \<Rightarrow>
            and_then (previous p)
              (\<lambda>q. Inr (Some \<lparr>point_path = q, offset = off + position\<rparr>))
        | Remove_text _ o_offset o_text \<Rightarrow>
            (if o_offset < off
             then Inr (Some \<lparr>point_path = p,
                              offset = max o_offset (off - int (length o_text))\<rparr>)
             else Inr (Some pt))
        | Node_op (Split_node _ position) \<Rightarrow>
            (if position = off \<and> affinity = None then Inr None
             else if position < off \<or> (position = off \<and> affinity = Some Forward)
             then and_then (next_path p)
                    (\<lambda>q. Inr (Some \<lparr>point_path = q, offset = off - position\<rparr>))
             else Inr (Some pt))
        | _ \<Rightarrow> by_path)
     else by_path)"

section \<open>Ranges\<close>

record range =
  anchor :: point
  focus :: point

text \<open>Modelled from the spec: \<open>Range.isCollapsed\<close> is declared outside the files at
  hand; a range is collapsed when its anchor equals its focus.\<close>

definition isCollapsed :: "range \<Rightarrow> bool" where
  "isCollapsed r = point_equals (anchor r) (focus r)"


section \<open>String diffs (packages/slate-dom/src/utils/diff-text.ts)\<close>

record string_diff =
  d_start :: int
  d_end :: int
  d_text :: string

record text_diff =
  td_id :: int
  td_path :: path
  td_diff :: string_diff

definition apply_one :: "string \<Rightarrow> string_diff \<Rightarrow> string" where
  "apply_one t d = slice t 0 (d_start d) @ d_text d @ slice_from t (d_end d)"

definition applyStringDiff :: "string \<Rightarrow> string_diff list \<Rightarrow> string" where
  "applyStringDiff t diffs = foldl apply_one t diffs"

function prefix_loop :: "string \<Rightarrow> string \<Rightarrow> nat \<Rightarrow> nat \<Rightarrow> nat" where
  "prefix_loop str another len i =
     (if i < len then
        (if charAt str (int i) \<noteq> charAt another (int i) then i
         else prefix_loop str another len (Suc i))
      else len)"
  by pat_completeness auto
termination
  by (relation "measure (\<lambda>(s, a, len, i). len - i)") auto

declare prefix_loop.simps [simp del]

definition longestCommonPrefixLength :: "string \<Rightarrow> string \<Rightarrow> nat" where
  "longestCommonPrefixLength str another =
     prefix_loop str another (min (length str) (length another)) 0"

function suffix_loop :: "string \<Rightarrow> string \<Rightarrow> nat \<Rightarrow> nat \<Rightarrow> nat" where
  "suffix_loop str another len i =
     (if i < len then
        (if charAt str (int (length str) - int i - 1)
              \<noteq> charAt another (int (length another) - int i - 1) then i
         else suffix_loop str another len (Suc i))
      else len)"
  by pat_completeness auto
termination
  by (relation "measure (\<lambda>(s, a, len, i). len - i)") auto

declare suffix_loop.simps [simp del]

text \<open>The bound \<open>max\<close> is a difference of lengths at its only call and is never
  negative there; a negative bound would leave the loop at once and return the bound
  itself, which the result type \<open>int\<close> keeps.\<close>

definition longestCommonSuffixLength :: "string \<Rightarrow> string \<Rightarrow> int \<Rightarrow> int" where
  "longestCommonSuffixLength str another mx =
     (let len = min (min (int (length str)) (int (length another))) mx
      in if len < 0 then len else int (suffix_loop str another (nat len) 0))"

definition normalizeStringDiff :: "string \<Rightarrow> string_diff \<Rightarrow> string_diff option" where
  "normalizeStringDiff targetText diff =
     (let start = d_start diff; end = d_end diff; text = d_text diff;
          removedText = slice targetText start end;
          prefixLength = int (longestCommonPrefixLength removedText text);
          mx = min (int (length removedText) - prefixLength) (int (length text) - prefixLength);
          suffixLength = longestCommonSuffixLength removedText text mx;
          normalized = \<lparr>d_start = start + prefixLength,
                        d_end = end - suffixLength,
                        d_text = slice text prefixLength (int (length text) - suffixLength)\<rparr>
      in if d_start normalized = d_end normalized \<and> length (d_text normalized) = 0
         then None else Some normalized)"

definition mergeStringDiffs :: "string \<Rightarrow> string_diff \<Rightarrow> string_diff \<Rightarrow> string_diff option" where
  "mergeStringDiffs targetText a b =
     (let start = min (d_start a) (d_start b);
          overlap = max 0 (min (d_start a + int (length (d_text a))) (d_end b) - d_start b);
          applied = applyStringDiff targetText [a, b];
          sliceEnd = max (d_start b + int (length (d_text b)))
                         (d_start a + int (length (d_text a))
                          + (if d_start a + int (length (d_text a)) > d_start b
                             then int (length (d_text b)) else 0)
                          - overlap);
          text = slice applied start sliceEnd;
          end = max (d_end a) (d_end b - int (length (d_text a)) + (d_end a - d_start a))
      in normalizeStringDiff targetText \<lparr>d_start = start, d_end = end, d_text = text\<rparr>)"

section \<open>Pending diffs (packages/slate-dom/src/utils/diff-text.ts)\<close>

text \<open>
  Modelled from the spec: the editor, its tree and the table of pending diffs are
  declared outside the files at hand. The functions below put five questions to an
  editor, and an editor is the record of their answers:
  \<^item> \<open>Editor.hasPath(editor, path)\<close>;
  \<open>Node.get(editor, path)\<close> followed by \<open>Node.isText\<close>: the text of the leaf at the
    path, or \<open>None\<close> for a node that is not a text;
  \<^item> \<open>Editor.above\<close> with the block match: the path of the entry found, if any;
  \<^item> \<open>Editor.next\<close> with the text match: the text and the path of the entry found, if
    any;
  \<^item> \<open>EDITOR_TO_PENDING_DIFFS.get(editor)\<close>: the list of pending diffs, if any.
\<close>

record editor =
  hasPath :: "path \<Rightarrow> bool"
  text_at :: "path \<Rightarrow> string option"
  block_above :: "path \<Rightarrow> path option"
  next_text :: "path \<Rightarrow> (string \<times> path) option"
  pending_diffs :: "text_diff list option"

text \<open>The walk of \<open>normalizePoint\<close> may go on for ever when the editor keeps
  answering with a next leaf; the outer \<open>None\<close> is the call that does not return.\<close>

partial_function (option) normalizePoint_loop ::
  "editor \<Rightarrow> path \<Rightarrow> path \<Rightarrow> string \<Rightarrow> int \<Rightarrow> point option option" where
  "normalizePoint_loop e block p leaf off =
     (if off > int (length leaf) then
        (case next_text e p of
           None \<Rightarrow> Some None
         | Some entry \<Rightarrow>
             if \<not> isDescendant (snd entry) block then Some None
             else normalizePoint_loop e block (snd entry) (fst entry) (off - int (length leaf)))
      else Some (Some \<lparr>point_path = p, offset = off\<rparr>))"

definition normalizePoint :: "editor \<Rightarrow> point \<Rightarrow> point option option" where
  "normalizePoint e pt =
     (if \<not> hasPath e (point_path pt) then Some None
      else case text_at e (point_path pt) of
        None \<Rightarrow> Some None
      | Some leaf \<Rightarrow>
          (case block_above e (point_path pt) of
             None \<Rightarrow> Some None
           | Some block \<Rightarrow> normalizePoint_loop e block (point_path pt) leaf (offset pt)))"

definition normalizeRange :: "editor \<Rightarrow> range \<Rightarrow> range option option" where
  "normalizeRange e r =
     (case normalizePoint e (anchor r) of
        None \<Rightarrow> None
      | Some None \<Rightarrow> Some None
      | Some (Some a) \<Rightarrow>
          if isCollapsed r then Some (Some \<lparr>anchor = a, focus = a\<rparr>)
          else
            (case normalizePoint e (focus r) of
               None \<Rightarrow> None
             | Some None \<Rightarrow> Some None
             | Some (Some f) \<Rightarrow> Some (Some \<lparr>anchor = a, focus = f\<rparr>)))"

definition transformPendingPoint :: "editor \<Rightarrow> point \<Rightarrow> operation \<Rightarrow> abort + point option" where
  "transformPendingPoint e pt op =
     (let textDiff =
            (case pending_diffs e of
               None \<Rightarrow> None
             | Some ds \<Rightarrow> find (\<lambda>d. equals (td_path d) (point_path pt)) ds)
      in case textDiff of
        None \<Rightarrow> point_transform pt op (Affinity Backward)
      | Some td \<Rightarrow>
         (if offset pt \<le> d_start (td_diff td) then point_transform pt op (Affinity Backward)
          else
           (let diff = td_diff td in
            if offset pt \<le> d_start diff + int (length (d_text diff)) then
              (case point_transform \<lparr>point_path = point_path pt, offset = d_start diff\<rparr>
                      op (Affinity Backward) of
                 Inl x \<Rightarrow> Inl x
               | Inr None \<Rightarrow> Inr None
               | Inr (Some transformed) \<Rightarrow>
                   Inr (Some \<lparr>point_path = point_path transformed,
                               offset = offset transformed + offset pt - d_start diff\<rparr>))
            else
             (let anch = \<lparr>point_path = point_path pt,
                          offset = offset pt - int (length (d_text diff))
                                   + d_end diff - d_start diff\<rparr>
              in (case point_transform anch op (Affinity Backward) of
                   Inl x \<Rightarrow> Inl x
                 | Inr None \<Rightarrow> Inr None
                 | Inr (Some transformed) \<Rightarrow>
                    (if (case op of
                           Node_op (Split_node op_p position) \<Rightarrow>
                             equals op_p (point_path pt) \<and> offset anch < position
                             \<and> d_start diff < position
                         | _ \<Rightarrow> False)
                     then Inr (Some transformed)
                     else Inr (Some \<lparr>point_path = point_path transformed,
                                      offset = offset transformed + int (length (d_text diff))
                                               - d_end diff + d_start diff\<rparr>)))))))"

definition transformPendingRange :: "editor \<Rightarrow> range \<Rightarrow> operation \<Rightarrow> abort + range option" where
  "transformPendingRange e r op =
     (case transformPendingPoint e (anchor r) op of
        Inl x \<Rightarrow> Inl x
      | Inr None \<Rightarrow> Inr None
      | Inr (Some a) \<Rightarrow>
          if isCollapsed r then Inr (Some \<lparr>anchor = a, focus = a\<rparr>)
          else
            (case transformPendingPoint e (focus r) op of
               Inl x \<Rightarrow> Inl x
             | Inr None \<Rightarrow> Inr None
             | Inr (Some f) \<Rightarrow> Inr (Some \<lparr>anchor = a, focus = f\<rparr>)))"

definition transformTextDiff :: "text_diff \<Rightarrow> operation \<Rightarrow> abort + text_diff option" where
  "transformTextDiff textDiff op =
    (let p = td_path textDiff; diff = td_diff textDiff; ident = td_id textDiff;
         start = d_start diff; end = d_end diff; text = d_text diff;
         by_path =
           (case op of
              Node_op n \<Rightarrow>
                (case transform p n Absent of
                   Inl x \<Rightarrow> Inl x
                 | Inr None \<Rightarrow> Inr None
                 | Inr (Some newPath) \<Rightarrow>
                     Inr (Some \<lparr>td_id = ident, td_path = newPath, td_diff = diff\<rparr>))
            | _ \<Rightarrow> Inr (Some textDiff))
     in
     if equals (op_path op) p then
       (case op of
          Insert_text _ o_offset o_text \<Rightarrow>
            (let len = int (length o_text) in
             if o_offset \<le> start then
               Inr (Some \<lparr>td_id = ident, td_path = p,
                 td_diff = \<lparr>d_start = start + len, d_end = end + len, d_text = text\<rparr>\<rparr>)
             else if o_offset < end then
               Inr (Some \<lparr>td_id = ident, td_path = p,
                 td_diff = \<lparr>d_start = start, d_end = end + len, d_text = text\<rparr>\<rparr>)
             else Inr (Some textDiff))
        | Remove_text _ o_offset o_text \<Rightarrow>
            (let len = int (length o_text) in
             if o_offset + len \<le> start then
               Inr (Some \<lparr>td_id = ident, td_path = p,
                 td_diff = \<lparr>d_start = start - len, d_end = end - len, d_text = text\<rparr>\<rparr>)
             else if o_offset < end then
               Inr (Some \<lparr>td_id = ident, td_path = p,
                 td_diff = \<lparr>d_start = start, d_end = end - len, d_text = text\<rparr>\<rparr>)
             else Inr (Some textDiff))
        | Node_op (Split_node _ position) \<Rightarrow>
            (if position \<le> start then
               and_then (next_path p) (\<lambda>q.
                 Inr (Some \<lparr>td_id = ident, td_path = q,
                   td_diff = \<lparr>d_start = start - position, d_end = end - position,
                              d_text = text\<rparr>\<rparr>))
             else if position < end then
               Inr (Some \<lparr>td_id = ident, td_path = p,
                 td_diff = \<lparr>d_start = start, d_end = min position end, d_text = text\<rparr>\<rparr>)
             else Inr (Some \<lparr>td_id = ident, td_path = p, td_diff = diff\<rparr>))
        | Node_op (Merge_node q position) \<Rightarrow>
            (case transform p (Merge_node q position) Absent of
               Inl x \<Rightarrow> Inl x
             | Inr None \<Rightarrow> Inl NullPath
             | Inr (Some newPath) \<Rightarrow>
                 Inr (Some \<lparr>td_id = ident, td_path = newPath,
                   td_diff = \<lparr>d_start = start + position, d_end = end + position,
                              d_text = text\<rparr>\<rparr>))
        | _ \<Rightarrow> by_path)
     else by_path)"


section \<open>The loops and predicates of the path algebra\<close>

lemma commonDepth_loop_spec:
  "i \<le> m \<Longrightarrow> (\<forall>j<i. p ! j = a ! j) \<Longrightarrow>
   (let r = commonDepth_loop p a m i in
      i \<le> r \<and> r \<le> m \<and> (\<forall>j<r. p ! j = a ! j) \<and> (r < m \<longrightarrow> p ! r \<noteq> a ! r))"
proof (induction p a m i rule: commonDepth_loop.induct)
  case (1 p a m i)
  show ?case
  proof (cases "i < m \<and> p ! i = a ! i")
    case True
    then have "\<forall>j<Suc i. p ! j = a ! j" using "1.prems"(2) by (simp add: less_Suc_eq)
    with True "1.IH" have
      "let r = commonDepth_loop p a m (Suc i) in
         Suc i \<le> r \<and> r \<le> m \<and> (\<forall>j<r. p ! j = a ! j) \<and> (r < m \<longrightarrow> p ! r \<noteq> a ! r)"
      by simp
    moreover have "commonDepth_loop p a m i = commonDepth_loop p a m (Suc i)"
      using True by (subst commonDepth_loop.simps) simp
    ultimately show ?thesis by (simp add: Let_def)
  next
    case False
    then have "commonDepth_loop p a m i = i" by (subst commonDepth_loop.simps) auto
    with False "1.prems" show ?thesis by (auto simp: Let_def)
  qed
qed

lemma commonDepth_le: "commonDepth p a \<le> length p" "commonDepth p a \<le> length a"
  using commonDepth_loop_spec [of 0 "min (length p) (length a)" p a]
  by (simp_all add: commonDepth_def Let_def)

lemma commonDepth_nth: "j < commonDepth p a \<Longrightarrow> p ! j = a ! j"
  using commonDepth_loop_spec [of 0 "min (length p) (length a)" p a]
  by (simp add: commonDepth_def Let_def)

lemma commonDepth_differ:
  "commonDepth p a < length p \<Longrightarrow> commonDepth p a < length a \<Longrightarrow>
   p ! commonDepth p a \<noteq> a ! commonDepth p a"
  using commonDepth_loop_spec [of 0 "min (length p) (length a)" p a]
  by (simp add: commonDepth_def Let_def)

lemma commonDepth_take: "take (commonDepth p a) p = take (commonDepth p a) a"
  by (rule nth_equalityI) (use commonDepth_le [of p a] in \<open>auto simp: commonDepth_nth\<close>)

lemma commonDepth_ge:
  assumes "n \<le> length p" "n \<le> length a" "take n p = take n a"
  shows "n \<le> commonDepth p a"
proof (rule ccontr)
  assume "\<not> n \<le> commonDepth p a"
  then have lt: "commonDepth p a < n" by simp
  then have "p ! commonDepth p a \<noteq> a ! commonDepth p a"
    using assms commonDepth_differ [of p a] by simp
  moreover have "take n p ! commonDepth p a = take n a ! commonDepth p a"
    using assms by simp
  ultimately show False using lt by simp
qed

lemma commonDepth_eq_length_iff:
  "(commonDepth p op = length op) = (length op \<le> length p \<and> take (length op) p = op)"
proof
  assume h: "commonDepth p op = length op"
  then show "length op \<le> length p \<and> take (length op) p = op"
    using commonDepth_le(1) [of p op] commonDepth_take [of p op] by simp
next
  assume h: "length op \<le> length p \<and> take (length op) p = op"
  then have "length op \<le> commonDepth p op"
    using commonDepth_ge [of "length op" p op] by simp
  then show "commonDepth p op = length op"
    using commonDepth_le(2) [of p op] by simp
qed

lemma commonDepth_sym: "commonDepth p a = commonDepth a p"
proof -
  have "commonDepth a p \<le> commonDepth p a"
    using commonDepth_ge [of "commonDepth a p" p a] commonDepth_le [of a p] commonDepth_take [of a p]
    by simp
  moreover have "commonDepth p a \<le> commonDepth a p"
    using commonDepth_ge [of "commonDepth p a" a p] commonDepth_le [of p a] commonDepth_take [of p a]
    by simp
  ultimately show ?thesis by simp
qed

lemma equals_iff: "equals p a = (p = a)"
  by (auto simp: equals_def list_all_iff intro: nth_equalityI)


lemma assign_add_length: "assign_add xs i d = Inr ys \<Longrightarrow> length ys = length xs"
  by (auto simp: assign_add_def split: if_splits)

lemma assign_add_Inl_iff:
  "(assign_add xs i d = Inl e) = (e = NonIntegerPath \<and> int (length xs) \<le> i)"
  by (auto simp: assign_add_def)

lemma returning_Some_iff: "(returning r = Inr (Some q)) = (r = Inr q)"
  by (auto simp: returning_def split: sum.splits)

lemma returning_None: "returning r \<noteq> Inr None"
  by (auto simp: returning_def split: sum.splits)

lemma returning_Inl_iff: "(returning r = Inl e) = (r = Inl e)"
  by (auto simp: returning_def split: sum.splits)

lemma and_then_Inr_iff: "(and_then r f = Inr q) = (\<exists>x. r = Inr x \<and> f x = Inr q)"
  by (auto simp: and_then_def split: sum.splits)

lemma and_then_Inl_iff:
  "(and_then r f = Inl e) = (r = Inl e \<or> (\<exists>x. r = Inr x \<and> f x = Inl e))"
  by (auto simp: and_then_def split: sum.splits)

lemmas result_iffs =
  returning_Some_iff returning_None returning_Inl_iff and_then_Inr_iff and_then_Inl_iff

section \<open>Path.transform keeps the depth of a path\<close>

text \<open>
  C10. For every path \<open>p\<close> and every \<open>insert_node\<close>, \<open>remove_node\<close>, \<open>merge_node\<close> or
  \<open>split_node\<close> operation, a path returned by \<open>Path.transform\<close> of
  \<open>packages/slate/src/interfaces/path.ts\<close> has the length of \<open>p\<close>: only \<open>move_node\<close> can
  change the depth of a path.
\<close>

theorem transform_length:
  assumes "\<forall>op newOp. operation \<noteq> Move_node op newOp"
    and "transform p operation opts = Inr (Some q)"
  shows "length q = length p"
proof (cases operation)
  case (Insert_node op)
  with assms(2) show ?thesis
    by (auto simp: transform_def Let_def result_iffs
        split: if_splits dest!: assign_add_length)
next
  case (Remove_node op)
  with assms(2) show ?thesis
    by (auto simp: transform_def Let_def result_iffs
        split: if_splits dest!: assign_add_length)
next
  case (Merge_node op position)
  with assms(2) show ?thesis
    by (auto simp: transform_def Let_def result_iffs
        split: if_splits dest!: assign_add_length)
next
  case (Split_node op position)
  with assms(2) show ?thesis
    by (auto simp: transform_def Let_def result_iffs
        split: if_splits option.splits text_direction.splits dest!: assign_add_length)
next
  case (Move_node op newOp)
  with assms(1) show ?thesis by simp
qed

theorem transform_length_witness:
  "(\<forall>op newOp. Insert_node [0, 0] \<noteq> Move_node op newOp)
   \<and> transform [0, 1] (Insert_node [0, 0]) Absent = Inr (Some [0, 2])
   \<and> length [0, 2 :: int] = length [0, 1 :: int]"
proof -
  have h1: "\<forall>op newOp. Insert_node [0, 0] \<noteq> Move_node op newOp" by simp
  have h2: "transform [0, 1] (Insert_node [0, 0]) Absent = Inr (Some [0, 2])" by code_simp
  show ?thesis using h1 h2 transform_length [OF h1 h2] by simp
qed

text \<open>
  Every index that \<open>Path.transform\<close> of \<open>path.ts\<close> assigns to lies inside the array or
  is \<open>-1\<close>: the function never leaves the integer paths.
\<close>

lemma transform_no_abort_insert: "transform p (Insert_node op) opts \<noteq> Inl e"
  using commonDepth_le [of p op]
  by (auto simp: transform_def Let_def result_iffs assign_add_Inl_iff split: if_splits)

lemma transform_no_abort_remove: "transform p (Remove_node op) opts \<noteq> Inl e"
  using commonDepth_le [of p op]
  by (auto simp: transform_def Let_def result_iffs assign_add_Inl_iff split: if_splits)

lemma transform_no_abort_merge: "transform p (Merge_node op position) opts \<noteq> Inl e"
  using commonDepth_le [of p op]
  by (auto simp: transform_def Let_def result_iffs assign_add_Inl_iff split: if_splits
      dest!: assign_add_length)

lemma transform_no_abort_split: "transform p (Split_node op position) opts \<noteq> Inl e"
  using commonDepth_le [of p op]
  by (auto simp: transform_def Let_def result_iffs assign_add_Inl_iff
      split: if_splits option.splits text_direction.splits dest!: assign_add_length)


lemma js_lt_at_index:
  "js_lt (at_index xs (int i)) (at_index ys (int j)) = (i < length xs \<and> j < length ys \<and> xs ! i < ys ! j)"
  by (simp add: at_index_def)

lemma js_ge_at_index:
  "js_ge (at_index xs (int i)) (Some k) = (i < length xs \<and> xs ! i \<ge> k)"
  by (simp add: at_index_def)

lemma transform_no_abort_move: "transform p (Move_node op newOp) opts \<noteq> Inl e"
  using commonDepth_le [of p op] commonDepth_le [of p newOp] commonDepth_le [of op newOp]
  by (auto simp: transform_def Let_def result_iffs assign_add_Inl_iff js_lt_at_index
      split: if_splits dest!: assign_add_length)

lemma transform_no_abort: "transform p operation opts \<noteq> Inl e"
  by (cases operation)
    (simp_all add: transform_no_abort_insert transform_no_abort_remove
      transform_no_abort_merge transform_no_abort_split transform_no_abort_move)


lemma compare_loop_zero_iff:
  "(compare_loop p a m i = 0) = (\<forall>j. i \<le> j \<and> j < m \<longrightarrow> p ! j = a ! j)"
proof (induction p a m i rule: compare_loop.induct)
  case (1 p a m i)
  show ?case
  proof (cases "i < m")
    case False
    then show ?thesis by (subst compare_loop.simps) auto
  next
    case True
    show ?thesis
    proof (cases "p ! i = a ! i")
      case False
      with True have "compare_loop p a m i \<noteq> 0"
        by (subst compare_loop.simps) auto
      with True False show ?thesis by auto
    next
      case eq: True
      with True have "compare_loop p a m i = compare_loop p a m (Suc i)"
        by (subst compare_loop.simps) simp
      moreover have "(\<forall>j. i \<le> j \<and> j < m \<longrightarrow> p ! j = a ! j)
                   = (\<forall>j. Suc i \<le> j \<and> j < m \<longrightarrow> p ! j = a ! j)"
        using eq by (metis Suc_leI le_eq_less_or_eq Suc_leD)
      ultimately show ?thesis using "1.IH" True eq by simp
    qed
  qed
qed

lemma compare_zero_iff:
  "(compare p a = 0) = (take (min (length p) (length a)) p = take (min (length p) (length a)) a)"
proof -
  have "(take (min (length p) (length a)) p = take (min (length p) (length a)) a)
        = (\<forall>j < min (length p) (length a). p ! j = a ! j)"
    by (auto simp: list_eq_iff_nth_eq)
  then show ?thesis by (simp add: compare_def compare_loop_zero_iff)
qed

lemma isAncestor_iff:
  "isAncestor op p = (length op < length p \<and> take (length op) p = op)"
  by (auto simp: isAncestor_def compare_zero_iff min_def)

lemma isDescendant_iff:
  "isDescendant p op = (length op < length p \<and> take (length op) p = op)"
  by (auto simp: isDescendant_def compare_zero_iff min_def)

lemma slice_0: "slice xs 0 e = take (rel_index (length xs) e) xs"
  by (simp add: slice_def rel_index_def)

lemma endsBefore_iff:
  "endsBefore op p =
     (op \<noteq> [] \<and> length op \<le> length p \<and> take (length op - 1) p = butlast op
      \<and> last op < p ! (length op - 1))"
proof (cases "op = []")
  case True
  then show ?thesis by (simp add: endsBefore_def at_index_def Let_def)
next
  case False
  then obtain k where k: "length op = Suc k" by (cases op) auto
  have i: "int (length op) - 1 = int k" using k by simp
  have r1: "rel_index (Suc k) (int k) = k"
    by (simp add: rel_index_def)
  have r2: "rel_index (length p) (int k) = min k (length p)"
    by (simp add: rel_index_def)
  have l: "last op = op ! k" using False k by (simp add: last_conv_nth)
  have b: "butlast op = take k op" using k by (simp add: butlast_conv_take)
  have "endsBefore op p = (take k op = take (min k (length p)) p \<and> k < length p \<and> op ! k < p ! k)"
    using k by (auto simp: endsBefore_def Let_def i slice_0 r1 r2 equals_iff at_index_def)
  also have "\<dots> = (Suc k \<le> length p \<and> take k p = take k op \<and> op ! k < p ! k)"
    by (auto simp: min_def)
  finally show ?thesis using False k l b by auto
qed

lemma opEndsBeforePath_iff:
  "(int (commonDepth p op) = int (length op) - 1
      \<and> js_lt (at_index op (int (commonDepth p op))) (at_index p (int (commonDepth p op))))
   = endsBefore op p"
proof (cases "op = []")
  case True
  then show ?thesis by (simp add: endsBefore_iff)
next
  case False
  then obtain k where k: "length op = Suc k" by (cases op) auto
  have l: "last op = op ! k" using False k by (simp add: last_conv_nth)
  have b: "butlast op = take k op" using k by (simp add: butlast_conv_take)
  have e: "endsBefore op p = (Suc k \<le> length p \<and> take k p = take k op \<and> op ! k < p ! k)"
    using False k l b by (simp add: endsBefore_iff)
  show ?thesis
  proof
    assume h: "int (commonDepth p op) = int (length op) - 1
      \<and> js_lt (at_index op (int (commonDepth p op))) (at_index p (int (commonDepth p op)))"
    then have cd: "commonDepth p op = k" using k by simp
    from h have lt: "k < length p" "op ! k < p ! k"
      by (simp_all add: js_lt_at_index cd)
    have "take k p = take k op"
      using commonDepth_take [of p op] cd by simp
    then show "endsBefore op p" using lt by (simp add: e)
  next
    assume "endsBefore op p"
    then have f: "Suc k \<le> length p" "take k p = take k op" "op ! k < p ! k"
      by (simp_all add: e)
    have ge: "k \<le> commonDepth p op"
      using f k by (intro commonDepth_ge) simp_all
    have "\<not> k < commonDepth p op"
    proof
      assume "k < commonDepth p op"
      then have "p ! k = op ! k" by (rule commonDepth_nth)
      with f(3) show False by simp
    qed
    with ge have cd: "commonDepth p op = k" by simp
    show "int (commonDepth p op) = int (length op) - 1
      \<and> js_lt (at_index op (int (commonDepth p op))) (at_index p (int (commonDepth p op)))"
      using f k by (simp add: cd js_lt_at_index)
  qed
qed


section \<open>Path.transform through a merge_node\<close>

lemma commonDepth_eq_length_left:
  "length op \<le> length p \<Longrightarrow> (commonDepth p op = length p) = (p = op)"
proof -
  assume le: "length op \<le> length p"
  have "(commonDepth p op = length p) = (length p \<le> length op \<and> take (length p) op = p)"
    using commonDepth_eq_length_iff [of op p] by (simp add: commonDepth_sym [of p op])
  also have "\<dots> = (p = op)" using le by auto
  finally show ?thesis .
qed

lemma transform_merge_unfold:
  "transform p (Merge_node op position) opts =
     (if length op > length p then Inr (Some p)
      else if take (length op) p \<noteq> op \<and> \<not> endsBefore op p then Inr (Some p)
      else if p = op \<or> endsBefore op p
        then returning (assign_add p (int (length op) - 1) (- 1))
      else returning (and_then (assign_add p (int (length op) - 1) (- 1))
                      (\<lambda>out. assign_add out (int (length op)) position)))"
  unfolding transform_def Let_def opEndsBeforePath_iff commonDepth_eq_length_iff
  by (auto simp: commonDepth_eq_length_left)


text \<open>
  C2, as stated, takes the sibling the other way round: "\<open>p\<close> is an earlier sibling of
  \<open>op\<close>". With \<open>p = [0]\<close> and \<open>op = [1]\<close> the path lies before the merged node and is
  returned unchanged, not decremented.
\<close>

theorem merge_node_literal_counterexample:
  "endsBefore [0] [1] \<and>
   transform [0] (Merge_node [1] 3) Absent
     \<noteq> Inr (Some ([0][length [1::int] - 1 := [0] ! (length [1::int] - 1) - 1]))"
  by code_simp

text \<open>
  C2, as amended. For every path \<open>p\<close> and \<open>merge_node\<close> operation with path \<open>op\<close> and
  position \<open>position\<close>, \<open>Path.transform\<close> of \<open>path.ts\<close> returns
  \<^item> \<open>p\<close> with the index at depth \<open>op.length - 1\<close> decremented by 1 and no other
    component changed, if \<open>p\<close> equals \<open>op\<close> or \<open>op\<close> is an earlier sibling of \<open>p\<close> or
    of one of the ancestors of \<open>p\<close> (\<open>Path.endsBefore(op, p)\<close>);
  \<^item> \<open>p\<close> with the index at depth \<open>op.length - 1\<close> decremented by 1 and the index at
    depth \<open>op.length\<close> increased by \<open>position\<close>, if \<open>p\<close> is strictly inside the subtree
    rooted at \<open>op\<close> (the root \<open>op = []\<close> has no index at depth \<open>-1\<close>, and only the index
    at depth 0 changes);
  \<^item> \<open>p\<close> unchanged otherwise.
\<close>

theorem merge_node_transform:
  "(equals p op \<or> endsBefore op p \<longrightarrow>
      transform p (Merge_node op position) opts
        = Inr (Some (p[length op - 1 := p ! (length op - 1) - 1])))
   \<and> (isAncestor op p \<longrightarrow>
      transform p (Merge_node op position) opts
        = Inr (Some ((if op = [] then p else p[length op - 1 := p ! (length op - 1) - 1])
                      [length op := p ! length op + position])))
   \<and> (\<not> equals p op \<and> \<not> endsBefore op p \<and> \<not> isAncestor op p \<longrightarrow>
      transform p (Merge_node op position) opts = Inr (Some p))"
proof (intro conjI impI)
  assume h: "equals p op \<or> endsBefore op p"
  show "transform p (Merge_node op position) opts
        = Inr (Some (p[length op - 1 := p ! (length op - 1) - 1]))"
  proof (cases "op = []")
    case True
    with h have "p = []" by (simp add: equals_iff endsBefore_iff)
    with True show ?thesis
      by (simp add: transform_merge_unfold returning_def assign_add_def)
  next
    case False
    then obtain k where k: "length op = Suc k" by (cases op) auto
    from h have le: "length op \<le> length p" by (auto simp: equals_iff endsBefore_iff)
    then have "assign_add p (int (length op) - 1) (- 1) = Inr (p[k := p ! k - 1])"
      using k by (simp add: assign_add_def)
    with h le k show ?thesis
      by (auto simp: transform_merge_unfold returning_def equals_iff)
  qed
next
  assume h: "isAncestor op p"
  then have lt: "length op < length p" and tk: "take (length op) p = op"
    by (simp_all add: isAncestor_iff)
  then have ne: "p \<noteq> op" by auto
  have nb: "\<not> endsBefore op p"
  proof
    assume "endsBefore op p"
    then have "op \<noteq> []" "last op < p ! (length op - 1)" by (simp_all add: endsBefore_iff)
    moreover have "p ! (length op - 1) = op ! (length op - 1)"
      using tk \<open>op \<noteq> []\<close> by (metis diff_less length_greater_0_conv nth_take zero_less_one)
    ultimately show False by (simp add: last_conv_nth)
  qed
  show "transform p (Merge_node op position) opts
        = Inr (Some ((if op = [] then p else p[length op - 1 := p ! (length op - 1) - 1])
                      [length op := p ! length op + position]))"
  proof (cases "op = []")
    case True
    with lt ne nb show ?thesis
      by (simp add: transform_merge_unfold returning_def and_then_def assign_add_def)
  next
    case False
    then obtain k where k: "length op = Suc k" by (cases op) auto
    have a1: "assign_add p (int k) (- 1) = Inr (p[k := p ! k - 1])"
      using k lt by (simp add: assign_add_def)
    have a2: "assign_add (p[k := p ! k - 1]) (1 + int k) position
                = Inr (p[k := p ! k - 1, Suc k := p ! Suc k + position])"
      using k lt by (simp add: assign_add_def nat_add_distrib)
    from lt ne nb tk False k show ?thesis
      by (simp add: transform_merge_unfold returning_def and_then_def a1 a2)
  qed
next
  assume h: "\<not> equals p op \<and> \<not> endsBefore op p \<and> \<not> isAncestor op p"
  then have "take (length op) p \<noteq> op \<or> length p < length op"
    by (cases "length op = length p") (auto simp: equals_iff isAncestor_iff)
  with h show "transform p (Merge_node op position) opts = Inr (Some p)"
    by (auto simp: transform_merge_unfold)
qed


theorem merge_node_transform_witness:
  "(equals [1] [1] \<or> endsBefore [1] [1])
   \<and> transform [1] (Merge_node [1] 3) Absent = Inr (Some [0])
   \<and> (equals [1, 5] [0] \<or> endsBefore [0] [1, 5])
   \<and> transform [1, 5] (Merge_node [0] 3) Absent = Inr (Some [0, 5])
   \<and> isAncestor [1] [1, 5]
   \<and> transform [1, 5] (Merge_node [1] 3) Absent = Inr (Some [0, 8])
   \<and> (\<not> equals [0] [1] \<and> \<not> endsBefore [1] [0] \<and> \<not> isAncestor [1] [0])
   \<and> transform [0] (Merge_node [1] 3) Absent = Inr (Some [0])"
proof -
  have h0: "equals [1] [1] \<or> endsBefore [1] [1]" by code_simp
  have h1: "equals [1, 5] [0] \<or> endsBefore [0] [1, 5]" by code_simp
  have h2: "isAncestor [1] [1, 5]" by code_simp
  have h3: "\<not> equals [0] [1] \<and> \<not> endsBefore [1] [0] \<and> \<not> isAncestor [1] [0]" by code_simp
  show ?thesis
    using h0 h1 h2 h3
      merge_node_transform [of "[1]" "[1]" 3 Absent]
      merge_node_transform [of "[1, 5]" "[0]" 3 Absent]
      merge_node_transform [of "[1, 5]" "[1]" 3 Absent]
      merge_node_transform [of "[0]" "[1]" 3 Absent]
    by simp
qed

section \<open>Path.transform through a move_node onto or below its own source\<close>

text \<open>
  In \<open>path.ts\<close>, a \<open>move_node\<close> whose new path is its old path or a descendant of it
  leaves every path at or below the old path unchanged.
\<close>

lemma move_node_noop:
  assumes "equals op p \<or> isAncestor op p"
    and "equals op newOp \<or> isDescendant newOp op"
  shows "transform p (Move_node op newOp) opts = Inr (Some p)"
proof -
  from assms(1) have "length op \<le> length p \<and> take (length op) p = op"
    by (auto simp: equals_iff isAncestor_iff)
  then have c1: "commonDepth p op = length op" by (simp add: commonDepth_eq_length_iff)
  from assms(2) have "length op \<le> length newOp \<and> take (length op) newOp = op"
    by (auto simp: equals_iff isDescendant_iff)
  then have "commonDepth newOp op = length op" by (simp add: commonDepth_eq_length_iff)
  then have c2: "commonDepth op newOp = length op" by (simp add: commonDepth_sym [of op newOp])
  show ?thesis by (simp add: transform_def Let_def c1 c2)
qed

text \<open>
  C5. For every path \<open>p\<close> and \<open>move_node\<close> operation whose source path is \<open>p\<close> or an
  ancestor of \<open>p\<close>, \<open>Path.transform\<close> returns \<open>p\<close> unchanged when the new path is the
  old path or a descendant of it. The copy in \<open>unnamed/part_000\<close> tests
  \<open>cdBetween === newOp.length\<close> where \<open>path.ts\<close> tests \<open>commonDepthBetween === op.length\<close>,
  and does not do so: moving \<open>[0]\<close> to its own descendant \<open>[0, 1]\<close> sends the path \<open>[0]\<close>
  to \<open>[0, 1]\<close>.
\<close>

theorem move_node_part_000_descendant:
  "equals [0] [0] \<and> isDescendant [0, 1] [0]
   \<and> transform_part_000 (Some [0]) (Move_node [0] [0, 1]) Absent = Inr (Some [0, 1])
   \<and> transform [0] (Move_node [0] [0, 1]) Absent = Inr (Some [0])"
  by code_simp

section \<open>Path.previous and Path.next\<close>

lemma slice_butlast: "slice xs 0 (- 1) = butlast xs"
proof -
  have "nat (max (int (length xs) - 1) 0) = length xs - 1" by linarith
  then show ?thesis by (simp add: slice_0 rel_index_def butlast_conv_take)
qed

text \<open>
  \<open>Path.previous\<close> of \<open>path.ts\<close> throws on the root and on a first child, and
  otherwise decrements the last index.
\<close>

lemma previous_spec:
  "previous [] = Inl RootHasNoPrevious"
  "p \<noteq> [] \<Longrightarrow> last p \<le> 0 \<Longrightarrow> previous p = Inl FirstChildHasNoPrevious"
  "p \<noteq> [] \<Longrightarrow> 0 < last p \<Longrightarrow> previous p = Inr (butlast p @ [last p - 1])"
  by (simp_all add: previous_def Let_def last_conv_nth slice_butlast)

text \<open>The copy in \<open>unnamed/part_000\<close> throws on the same paths.\<close>

lemma previous_part_000_throws:
  "previous_part_000 [] = Inl RootHasNoPrevious"
  "p \<noteq> [] \<Longrightarrow> last p \<le> 0 \<Longrightarrow> previous_part_000 p = Inl FirstChildHasNoPrevious"
  by (simp_all add: previous_part_000_def Let_def last_conv_nth)

lemma next_path_spec:
  "next_path [] = Inl RootHasNoNext"
  "p \<noteq> [] \<Longrightarrow> next_path p = Inr (butlast p @ [last p + 1])"
  by (simp_all add: next_path_def Let_def last_conv_nth slice_butlast)

text \<open>
  C6. \<open>Path.previous\<close> throws on the root path and on a path whose last index is 0, and
  for every other path returns the path with only the last index decremented by 1. The
  copy in \<open>unnamed/part_000\<close> stores \<open>last\<close> where \<open>last - 1\<close> is due and returns its
  argument: the previous sibling of \<open>[0, 3]\<close> comes out as \<open>[0, 3]\<close>.
\<close>

theorem previous_part_000_unchanged:
  "previous_part_000 [0, 3] = Inr [0, 3] \<and> previous [0, 3] = Inr [0, 2]"
  by code_simp

section \<open>The two copies of Path.transform\<close>

text \<open>
  C9. The two implementations of \<open>Path.transform\<close> return equal results. They do not:
  through a \<open>merge_node\<close> at \<open>[0]\<close> with position 3, the path \<open>[1, 5]\<close> of a later sibling's
  child goes to \<open>[0, 5]\<close> in \<open>path.ts\<close> and to \<open>[0, 8]\<close> in \<open>unnamed/part_000\<close>, whose
  first branch adds the position for every affected path and whose second branch can
  never be taken.
\<close>

theorem transform_copies_differ:
  "transform [1, 5] (Merge_node [0] 3) Absent = Inr (Some [0, 5])
   \<and> transform_part_000 (Some [1, 5]) (Merge_node [0] 3) Absent = Inr (Some [0, 8])"
  by code_simp

text \<open>
  The copies differ through a \<open>move_node\<close> as well: when the node before the path moves
  to the place of the path itself, \<open>path.ts\<close> counts the removal and
  \<open>unnamed/part_000\<close> lets it cancel against an insertion that does not shift the path.
\<close>

lemma transform_copies_differ_move:
  "transform [1] (Move_node [0] [1]) Absent = Inr (Some [0])
   \<and> transform_part_000 (Some [1]) (Move_node [0] [1]) Absent = Inr (Some [1])"
  by code_simp

text \<open>
  On a path that is not \<open>null\<close> the two copies agree through every \<open>insert_node\<close>,
  \<open>remove_node\<close> and \<open>split_node\<close>.
\<close>

lemma transform_part_000_agrees:
  assumes "\<forall>op position. operation \<noteq> Merge_node op position"
    and "\<forall>op newOp. operation \<noteq> Move_node op newOp"
  shows "transform_part_000 (Some p) operation opts = transform p operation opts"
proof (cases operation)
  case (Insert_node op)
  then show ?thesis by (auto simp: transform_def transform_part_000_def Let_def)
next
  case (Remove_node op)
  then show ?thesis by (auto simp: transform_def transform_part_000_def Let_def)
next
  case (Split_node op position)
  then show ?thesis
    using commonDepth_le [of p op]
    by (auto simp: transform_def transform_part_000_def Let_def
        split: option.splits text_direction.splits)
qed (use assms in simp_all)

section \<open>String diffs\<close>

text \<open>
  C7, as stated, gives \<open>{start: 6, end: 10, text: "earth"}\<close> for
  \<open>normalizeStringDiff("hello world", {start: 0, end: 11, text: "hello earth"})\<close>. The
  removed text \<open>"hello world"\<close> and the new text share the prefix \<open>"hello "\<close> and no suffix
  (\<open>"d"\<close> against \<open>"h"\<close>), so the end stays at 11.
\<close>

theorem normalize_hello_earth_counterexample:
  "normalizeStringDiff ''hello world'' \<lparr>d_start = 0, d_end = 11, d_text = ''hello earth''\<rparr>
     \<noteq> Some \<lparr>d_start = 6, d_end = 10, d_text = ''earth''\<rparr>"
  by code_simp

text \<open>
  C7, as amended. \<open>normalizeStringDiff("hello world", {start: 0, end: 11, text: "hello
  earth"})\<close> returns \<open>{start: 6, end: 11, text: "earth"}\<close>.
\<close>

theorem normalize_hello_earth:
  "normalizeStringDiff ''hello world'' \<lparr>d_start = 0, d_end = 11, d_text = ''hello earth''\<rparr>
     = Some \<lparr>d_start = 6, d_end = 11, d_text = ''earth''\<rparr>"
  by code_simp



text \<open>
  On indexes that are not negative, \<open>slice\<close> is \<open>take\<close> after \<open>drop\<close>, and a diff
  replaces the characters from its start to its end.
\<close>

lemma slice_nonneg:
  "0 \<le> b \<Longrightarrow> 0 \<le> e \<Longrightarrow> slice xs b e = take (nat e - nat b) (drop (nat b) xs)"
  by (auto simp: slice_def rel_index_def Let_def min_def)

lemma slice_from_nonneg: "0 \<le> b \<Longrightarrow> slice_from xs b = drop (nat b) xs"
  by (auto simp: slice_from_def rel_index_def min_def)

lemma apply_one_nonneg:
  "0 \<le> d_start d \<Longrightarrow> 0 \<le> d_end d \<Longrightarrow>
   apply_one t d = take (nat (d_start d)) t @ d_text d @ drop (nat (d_end d)) t"
  by (simp add: apply_one_def slice_nonneg slice_from_nonneg)

lemma split_in_three:
  "m \<le> x \<Longrightarrow> take m xs @ take (x - m) (drop m xs) @ drop x xs = xs"
proof -
  assume "m \<le> x"
  then have "drop x xs = drop (x - m) (drop m xs)" by simp
  then have "take (x - m) (drop m xs) @ drop x xs = drop m xs"
    by (simp only: append_take_drop_id)
  then show ?thesis by simp
qed

lemma merge_core:
  fixes t ta tb :: "'a list" and sa ea sb eb :: nat
  assumes "sa \<le> ea" "ea \<le> length t" "sb \<le> eb"
    and "eb \<le> length (take sa t @ ta @ drop ea t)"
  defines "t1 \<equiv> take sa t @ ta @ drop ea t"
  defines "applied \<equiv> take sb t1 @ tb @ drop eb t1"
  shows "eb \<le> sa + length ta \<Longrightarrow>
           take (min sa sb) t
             @ take (sa + length ta + length tb + sb - eb - min sa sb) (drop (min sa sb) applied)
             @ drop ea t = applied"
    and "sa + length ta < eb \<Longrightarrow>
           take (min sa sb) t
             @ take (sb + length tb - min sa sb) (drop (min sa sb) applied)
             @ drop (eb - (sa + length ta) + ea) t = applied"
proof -
  have l1: "length t1 = sa + length ta + (length t - ea)"
    using assms(1,2) by (simp add: t1_def)
  have sb1: "sb \<le> length t1" "eb \<le> length t1" using assms(3,4) by (simp_all add: t1_def)
  have pre: "take (min sa sb) applied = take (min sa sb) t"
  proof -
    have "take (min sa sb) applied = take (min sa sb) t1"
      using sb1 by (simp add: applied_def min_def)
    also have "\<dots> = take (min sa sb) t"
      using assms(1,2) by (simp add: t1_def min_def)
    finally show ?thesis .
  qed
  have dropA: "drop (sa + length ta) t1 = drop ea t"
    using assms(1,2) by (simp add: t1_def)
  {
    assume c: "eb \<le> sa + length ta"
    let ?x = "sa + length ta + length tb + sb - eb"
    have "drop ?x applied = drop (sa + length ta - eb) (drop eb t1)"
      using sb1 c assms(3) by (simp add: applied_def min_def)
    also have "\<dots> = drop (sa + length ta) t1" using c by simp
    finally have post: "drop ?x applied = drop ea t" by (simp add: dropA)
    have "min sa sb \<le> ?x" using c assms(3) by simp
    from split_in_three [OF this, of applied] pre post
    show "take (min sa sb) t
             @ take (sa + length ta + length tb + sb - eb - min sa sb) (drop (min sa sb) applied)
             @ drop ea t = applied"
      by simp
  }
  {
    assume c: "sa + length ta < eb"
    let ?x = "sb + length tb"
    have "drop ?x applied = drop eb t1"
      using sb1 by (simp add: applied_def min_def)
    also have "\<dots> = drop (eb - (sa + length ta)) (drop (sa + length ta) t1)"
      using c by simp
    also have "\<dots> = drop (eb - (sa + length ta) + ea) t"
      by (simp add: dropA add.commute)
    finally have post: "drop ?x applied = drop (eb - (sa + length ta) + ea) t" .
    have "min sa sb \<le> ?x" by simp
    from split_in_three [OF this, of applied] pre post
    show "take (min sa sb) t
             @ take (sb + length tb - min sa sb) (drop (min sa sb) applied)
             @ drop (eb - (sa + length ta) + ea) t = applied"
      by simp
  }
qed


lemma charAt_in_range: "i < length s \<Longrightarrow> charAt s (int i) = [s ! i]"
  by (simp add: charAt_def)

lemma prefix_loop_spec:
  "i \<le> len \<Longrightarrow> len \<le> length str \<Longrightarrow> len \<le> length another \<Longrightarrow>
   (\<forall>j<i. str ! j = another ! j) \<Longrightarrow>
   prefix_loop str another len i \<le> len
   \<and> (\<forall>j < prefix_loop str another len i. str ! j = another ! j)"
proof (induction str another len i rule: prefix_loop.induct)
  case (1 str another len i)
  show ?case
  proof (cases "i < len")
    case False
    then have "prefix_loop str another len i = len" by (subst prefix_loop.simps) simp
    with False "1.prems" show ?thesis by auto
  next
    case True
    then have ch: "charAt str (int i) = [str ! i]" "charAt another (int i) = [another ! i]"
      using "1.prems" by (simp_all add: charAt_in_range)
    show ?thesis
    proof (cases "str ! i = another ! i")
      case False
      with True ch have "prefix_loop str another len i = i"
        by (subst prefix_loop.simps) simp
      with "1.prems" show ?thesis by simp
    next
      case eq: True
      with True ch have r: "prefix_loop str another len i = prefix_loop str another len (Suc i)"
        by (subst prefix_loop.simps) simp
      have "\<forall>j<Suc i. str ! j = another ! j" using eq "1.prems"(4) by (simp add: less_Suc_eq)
      with "1.IH" [of] True ch eq "1.prems" r show ?thesis by simp
    qed
  qed
qed

lemma suffix_loop_stop: "\<not> i < len \<Longrightarrow> suffix_loop str another len i = len"
  by (subst suffix_loop.simps) simp

lemma charAt_back:
  "i < length s \<Longrightarrow> charAt s (int (length s) - int i - 1) = [s ! (length s - 1 - i)]"
proof -
  assume a: "i < length s"
  then have "int (length s) - int i - 1 = int (length s - 1 - i)" by linarith
  moreover have "length s - 1 - i < length s" using a by linarith
  ultimately show ?thesis by (simp only: charAt_in_range)
qed

lemma suffix_loop_differ:
  "i < len \<Longrightarrow> len \<le> length str \<Longrightarrow> len \<le> length another \<Longrightarrow>
   str ! (length str - 1 - i) \<noteq> another ! (length another - 1 - i) \<Longrightarrow>
   suffix_loop str another len i = i"
  by (subst suffix_loop.simps) (simp add: charAt_back)

lemma suffix_loop_same:
  "i < len \<Longrightarrow> len \<le> length str \<Longrightarrow> len \<le> length another \<Longrightarrow>
   str ! (length str - 1 - i) = another ! (length another - 1 - i) \<Longrightarrow>
   suffix_loop str another len i = suffix_loop str another len (Suc i)"
  by (subst suffix_loop.simps) (simp add: charAt_back)


lemma suffix_loop_spec:
  "i \<le> len \<Longrightarrow> len \<le> length str \<Longrightarrow> len \<le> length another \<Longrightarrow>
   (\<forall>j<i. str ! (length str - 1 - j) = another ! (length another - 1 - j)) \<Longrightarrow>
   suffix_loop str another len i \<le> len
   \<and> (\<forall>j < suffix_loop str another len i.
         str ! (length str - 1 - j) = another ! (length another - 1 - j))"
proof (induction "len - i" arbitrary: i)
  case 0
  then have "suffix_loop str another len i = len" by (simp add: suffix_loop_stop)
  with 0 show ?case by simp
next
  case (Suc n)
  then have lt: "i < len" by simp
  show ?case
  proof (cases "str ! (length str - 1 - i) = another ! (length another - 1 - i)")
    case False
    with lt Suc.prems have "suffix_loop str another len i = i"
      by (simp add: suffix_loop_differ)
    with Suc.prems show ?thesis by simp
  next
    case True
    with lt Suc.prems have r: "suffix_loop str another len i = suffix_loop str another len (Suc i)"
      by (simp add: suffix_loop_same)
    have all: "\<forall>j<Suc i. str ! (length str - 1 - j) = another ! (length another - 1 - j)"
      using True Suc.prems(4) by (simp add: less_Suc_eq)
    have n: "n = len - Suc i" using Suc.hyps(2) by simp
    have le: "Suc i \<le> len" using lt by simp
    from Suc.hyps(1) [OF n le Suc.prems(2,3) all] show ?thesis unfolding r .
  qed
qed


lemma longestCommonPrefixLength_spec:
  "longestCommonPrefixLength str another \<le> length str"
  "longestCommonPrefixLength str another \<le> length another"
  "take (longestCommonPrefixLength str another) str
     = take (longestCommonPrefixLength str another) another"
proof -
  let ?r = "longestCommonPrefixLength str another"
  have s: "?r \<le> min (length str) (length another) \<and> (\<forall>j < ?r. str ! j = another ! j)"
    unfolding longestCommonPrefixLength_def
    by (rule prefix_loop_spec) simp_all
  then show "?r \<le> length str" "?r \<le> length another" by simp_all
  with s show "take ?r str = take ?r another"
    by (intro nth_equalityI) simp_all
qed

lemma longestCommonSuffixLength_spec:
  assumes "0 \<le> mx"
  shows "\<exists>q. longestCommonSuffixLength str another mx = int q
             \<and> int q \<le> mx \<and> q \<le> length str \<and> q \<le> length another
             \<and> drop (length str - q) str = drop (length another - q) another"
proof -
  define len where "len = nat (min (min (int (length str)) (int (length another))) mx)"
  define q where "q = suffix_loop str another len 0"
  have len: "len \<le> length str" "len \<le> length another" "int len \<le> mx"
    using assms by (auto simp: len_def)
  have s: "q \<le> len
     \<and> (\<forall>j < q. str ! (length str - 1 - j) = another ! (length another - 1 - j))"
    unfolding q_def using len by (intro suffix_loop_spec) simp_all
  have "\<not> min (min (int (length str)) (int (length another))) mx < 0"
    using assms by simp
  then have e: "longestCommonSuffixLength str another mx = int q"
    by (simp only: longestCommonSuffixLength_def Let_def if_False q_def len_def)
  have qb: "q \<le> length str" "q \<le> length another" "int q \<le> mx" using s len by linarith+
  have "drop (length str - q) str = drop (length another - q) another"
  proof (rule nth_equalityI)
    show "length (drop (length str - q) str) = length (drop (length another - q) another)"
      using qb by simp
  next
    fix k assume "k < length (drop (length str - q) str)"
    then have k: "k < q" using qb by simp
    then have j: "q - 1 - k < q" by simp
    have "str ! (length str - 1 - (q - 1 - k)) = another ! (length another - 1 - (q - 1 - k))"
      using s j by blast
    moreover have "length str - 1 - (q - 1 - k) = length str - q + k"
      "length another - 1 - (q - 1 - k) = length another - q + k"
      using k qb by linarith+
    ultimately show "drop (length str - q) str ! k = drop (length another - q) another ! k"
      using qb k by simp
  qed
  with e qb show ?thesis by blast
qed


lemma normalize_core:
  fixes t ins :: "'a list"
  assumes "s \<le> e" "e \<le> length t" "p + q \<le> e - s" "p + q \<le> length ins"
    and pre: "take p (take (e - s) (drop s t)) = take p ins"
    and suf: "drop (e - s - q) (take (e - s) (drop s t)) = drop (length ins - q) ins"
  shows "take (s + p) t @ take (length ins - q - p) (drop p ins) @ drop (e - q) t
         = take s t @ ins @ drop e t"
proof -
  have "take p (take (e - s) (drop s t)) = take p (drop s t)"
    using assms(3) by (simp add: min_def)
  then have a: "take (s + p) t = take s t @ take p ins"
    using pre by (simp add: take_add)
  have "drop (e - s - q) (take (e - s) (drop s t)) = take q (drop (e - q) t)"
    using assms(1,3) by (simp add: drop_take)
  then have "take q (drop (e - q) t) = drop (length ins - q) ins" using suf by simp
  moreover have "drop q (drop (e - q) t) = drop e t" using assms(1,3) by simp
  ultimately have b: "drop (e - q) t = drop (length ins - q) ins @ drop e t"
    by (metis append_take_drop_id)
  have "p \<le> length ins - q" using assms(4) by simp
  from split_in_three [OF this, of ins]
  have c: "take p ins @ take (length ins - q - p) (drop p ins) @ drop (length ins - q) ins = ins" .
  have "take (s + p) t @ take (length ins - q - p) (drop p ins) @ drop (e - q) t
        = take s t @ (take p ins @ take (length ins - q - p) (drop p ins)
            @ drop (length ins - q) ins) @ drop e t"
    by (simp only: a b append_assoc)
  then show ?thesis by (simp only: c)
qed

lemma normalize_apply:
  assumes "0 \<le> d_start d" "d_start d \<le> d_end d" "d_end d \<le> int (length t)"
  shows "case normalizeStringDiff t d of
           None \<Rightarrow> apply_one t d = t
         | Some n \<Rightarrow> apply_one t n = apply_one t d"
proof -
  obtain s where s: "d_start d = int s" using assms(1) by (metis nonneg_int_cases)
  obtain e where e: "d_end d = int e" using assms(1,2) by (metis nonneg_int_cases order_trans)
  have se: "s \<le> e" "e \<le> length t" using assms s e by simp_all
  define removed where "removed = take (e - s) (drop s t)"
  have removed: "slice t (d_start d) (d_end d) = removed"
    by (simp add: s e slice_nonneg removed_def)
  have lr: "length removed = e - s" using se by (simp add: removed_def)
  define p where "p = longestCommonPrefixLength removed (d_text d)"
  have p: "p \<le> e - s" "p \<le> length (d_text d)" "take p removed = take p (d_text d)"
    using longestCommonPrefixLength_spec [of removed "d_text d"] by (simp_all add: p_def lr)
  define mx where "mx = min (int (length removed) - int p) (int (length (d_text d)) - int p)"
  have mx0: "0 \<le> mx" using p by (simp add: mx_def lr)
  from longestCommonSuffixLength_spec [OF mx0, of removed "d_text d"]
  obtain q where q: "longestCommonSuffixLength removed (d_text d) mx = int q"
    "int q \<le> mx" "q \<le> length removed" "q \<le> length (d_text d)"
    "drop (length removed - q) removed = drop (length (d_text d) - q) (d_text d)"
    by blast
  have pq: "p + q \<le> e - s" "p + q \<le> length (d_text d)"
    using q(2) p by (simp_all add: mx_def lr)
  define mid where "mid = take (length (d_text d) - q - p) (drop p (d_text d))"
  have lmid: "length mid = length (d_text d) - q - p" using pq by (simp add: mid_def)
  have sl: "slice (d_text d) (int p) (int (length (d_text d)) - int q) = mid"
  proof -
    have "nat (int (length (d_text d)) - int q) - nat (int p) = length (d_text d) - q - p"
      by simp
    moreover have "0 \<le> int (length (d_text d)) - int q" using q(4) by simp
    ultimately show ?thesis by (simp add: slice_nonneg mid_def)
  qed
  have norm: "normalizeStringDiff t d =
     (if int s + int p = int e - int q \<and> length mid = 0 then None
      else Some \<lparr>d_start = int s + int p, d_end = int e - int q, d_text = mid\<rparr>)"
    unfolding normalizeStringDiff_def Let_def removed
    unfolding p_def [symmetric] mx_def [symmetric]
    by (simp add: q(1) sl s e)
  have core: "take (s + p) t @ mid @ drop (e - q) t = take s t @ d_text d @ drop e t"
    unfolding mid_def
    using se pq p(3) q(5) by (intro normalize_core) (simp_all add: removed_def lr [unfolded removed_def])
  have ap: "apply_one t d = take s t @ d_text d @ drop e t"
    using assms by (simp add: apply_one_nonneg s e)
  show ?thesis
  proof (cases "int s + int p = int e - int q \<and> length mid = 0")
    case True
    then have "s + p = e - q" "mid = []" using pq by auto
    with core have "take s t @ d_text d @ drop e t = t" by simp
    with True norm ap show ?thesis by simp
  next
    case False
    have "0 \<le> int e - int q" using pq se by linarith
    then have "apply_one t \<lparr>d_start = int s + int p, d_end = int e - int q, d_text = mid\<rparr>
          = take (s + p) t @ mid @ drop (e - q) t"
      by (simp add: apply_one_nonneg nat_add_distrib nat_diff_distrib)
    moreover from False norm
    have "normalizeStringDiff t d
            = Some \<lparr>d_start = int s + int p, d_end = int e - int q, d_text = mid\<rparr>"
      by simp
    ultimately show ?thesis using ap core by simp
  qed
qed


lemma merge_unnormalized:
  assumes "0 \<le> d_start a" "d_start a \<le> d_end a" "d_end a \<le> int (length t)"
    and "0 \<le> d_start b" "d_start b \<le> d_end b"
    and "d_end b \<le> int (length (applyStringDiff t [a]))"
  shows "\<exists>m. mergeStringDiffs t a b = normalizeStringDiff t m
             \<and> 0 \<le> d_start m \<and> d_start m \<le> d_end m \<and> d_end m \<le> int (length t)
             \<and> apply_one t m = applyStringDiff t [a, b]"
proof -
  obtain sa where sa: "d_start a = int sa" using assms(1) by (metis nonneg_int_cases)
  obtain ea where ea: "d_end a = int ea" using assms(1,2) by (metis nonneg_int_cases order_trans)
  obtain sb where sb: "d_start b = int sb" using assms(4) by (metis nonneg_int_cases)
  obtain eb where eb: "d_end b = int eb" using assms(4,5) by (metis nonneg_int_cases order_trans)
  define ta where "ta = d_text a"
  define tb where "tb = d_text b"
  define t1 where "t1 = take sa t @ ta @ drop ea t"
  define applied where "applied = take sb t1 @ tb @ drop eb t1"
  have le: "sa \<le> ea" "ea \<le> length t" "sb \<le> eb" using assms sa ea sb eb by simp_all
  have t1: "apply_one t a = t1"
    using assms(1,2) by (simp add: apply_one_nonneg sa ea t1_def ta_def)
  have ap: "applyStringDiff t [a, b] = applied"
    using assms(4,5) by (simp add: applyStringDiff_def t1 apply_one_nonneg sb eb applied_def tb_def)
  have eb1: "eb \<le> length (take sa t @ ta @ drop ea t)"
    using assms(6) by (simp add: applyStringDiff_def t1 eb t1_def)
  have lt1: "length t1 = sa + length ta + (length t - ea)"
    using le by (simp add: t1_def)
  define m where "m = min sa sb"
  define x where "x = (if eb \<le> sa + length ta then sa + length ta + length tb + sb - eb
                        else sb + length tb)"
  define e where "e = (if eb \<le> sa + length ta then ea else eb - (sa + length ta) + ea)"
  have start: "min (d_start a) (d_start b) = int m" by (simp add: sa sb m_def)
  have sliceEnd:
    "max (d_start b + int (length tb))
         (d_start a + int (length ta)
          + (if d_start a + int (length ta) > d_start b then int (length tb) else 0)
          - max 0 (min (d_start a + int (length ta)) (d_end b) - d_start b)) = int x"
    using le by (auto simp: sa sb eb x_def min_def max_def)
  have end': "max (d_end a) (d_end b - int (length ta) + (d_end a - d_start a)) = int e"
    using le by (auto simp: sa ea eb e_def max_def)
  have mx: "m \<le> x" using le by (auto simp: m_def x_def)
  have me: "m \<le> e" using le by (auto simp: m_def e_def)
  have el: "e \<le> length t" using le eb1 by (auto simp: e_def)
  define txt' where "txt' = take (x - m) (drop m applied)"
  have sl: "slice applied (int m) (int x) = txt'" by (simp add: slice_nonneg txt'_def)
  define merged where "merged = \<lparr>d_start = int m, d_end = int e, d_text = txt'\<rparr>"
  have mg: "mergeStringDiffs t a b = normalizeStringDiff t merged"
    unfolding mergeStringDiffs_def Let_def ap
    unfolding ta_def [symmetric] tb_def [symmetric]
    by (simp only: start sliceEnd end' sl merged_def)
  have "take m t @ txt' @ drop e t = applied"
  proof (cases "eb \<le> sa + length ta")
    case True
    then have xe: "x = sa + length ta + length tb + sb - eb" "e = ea"
      by (simp_all add: x_def e_def)
    show ?thesis
      unfolding txt'_def m_def xe applied_def t1_def
      by (rule merge_core(1) [OF le(1,2,3) eb1 True])
  next
    case False
    then have lt: "sa + length ta < eb" by simp
    then have xe: "x = sb + length tb" "e = eb - (sa + length ta) + ea"
      by (simp_all add: x_def e_def)
    show ?thesis
      unfolding txt'_def m_def xe applied_def t1_def
      by (rule merge_core(2) [OF le(1,2,3) eb1 lt])
  qed
  then have "apply_one t merged = applyStringDiff t [a, b]"
    by (simp add: apply_one_nonneg merged_def ap)
  with mg me el show ?thesis
    by (intro exI [of _ merged]) (simp add: merged_def)
qed


text \<open>
  C1. For every string \<open>t\<close>, every well-formed StringDiff \<open>a\<close> against \<open>t\<close>
  (\<open>0 <= a.start <= a.end <= t.length\<close>) and every well-formed StringDiff \<open>b\<close> against
  \<open>applyStringDiff(t, a)\<close>: if \<open>mergeStringDiffs(t, a, b)\<close> returns a diff \<open>m\<close> then
  \<open>applyStringDiff(t, m)\<close> equals \<open>applyStringDiff(t, a, b)\<close>, and \<open>mergeStringDiffs\<close>
  returns \<open>null\<close> only when \<open>applyStringDiff(t, a, b)\<close> equals \<open>t\<close>.
\<close>

theorem mergeStringDiffs_law:
  assumes "0 \<le> d_start a" "d_start a \<le> d_end a" "d_end a \<le> int (length t)"
    and "0 \<le> d_start b" "d_start b \<le> d_end b"
    and "d_end b \<le> int (length (applyStringDiff t [a]))"
  shows "(\<forall>m. mergeStringDiffs t a b = Some m \<longrightarrow>
            applyStringDiff t [m] = applyStringDiff t [a, b])
         \<and> (mergeStringDiffs t a b = None \<longrightarrow> applyStringDiff t [a, b] = t)"
proof -
  from merge_unnormalized [OF assms]
  obtain m0 where m0: "mergeStringDiffs t a b = normalizeStringDiff t m0"
    "0 \<le> d_start m0" "d_start m0 \<le> d_end m0" "d_end m0 \<le> int (length t)"
    "apply_one t m0 = applyStringDiff t [a, b]"
    by blast
  from normalize_apply [OF m0(2,3,4)] m0(1,5) show ?thesis
    by (auto simp: applyStringDiff_def split: option.splits)
qed

theorem mergeStringDiffs_law_witness:
  "0 \<le> d_start \<lparr>d_start = 1, d_end = 1, d_text = ''X''\<rparr> \<and> d_start \<lparr>d_start = 1, d_end = 1, d_text = ''X''\<rparr> \<le> d_end \<lparr>d_start = 1, d_end = 1, d_text = ''X''\<rparr> \<and> d_end \<lparr>d_start = 1, d_end = 1, d_text = ''X''\<rparr> \<le> int (length ''abc'')
   \<and> 0 \<le> d_start \<lparr>d_start = 2, d_end = 2, d_text = ''Y''\<rparr> \<and> d_start \<lparr>d_start = 2, d_end = 2, d_text = ''Y''\<rparr> \<le> d_end \<lparr>d_start = 2, d_end = 2, d_text = ''Y''\<rparr>
   \<and> d_end \<lparr>d_start = 2, d_end = 2, d_text = ''Y''\<rparr> \<le> int (length (applyStringDiff ''abc'' [\<lparr>d_start = 1, d_end = 1, d_text = ''X''\<rparr>]))
   \<and> mergeStringDiffs ''abc'' \<lparr>d_start = 1, d_end = 1, d_text = ''X''\<rparr> \<lparr>d_start = 2, d_end = 2, d_text = ''Y''\<rparr> = Some \<lparr>d_start = 1, d_end = 1, d_text = ''XY''\<rparr>
   \<and> applyStringDiff ''abc'' [\<lparr>d_start = 1, d_end = 1, d_text = ''XY''\<rparr>] = applyStringDiff ''abc'' [\<lparr>d_start = 1, d_end = 1, d_text = ''X''\<rparr>, \<lparr>d_start = 2, d_end = 2, d_text = ''Y''\<rparr>]
   \<and> applyStringDiff ''abc'' [\<lparr>d_start = 1, d_end = 1, d_text = ''X''\<rparr>, \<lparr>d_start = 2, d_end = 2, d_text = ''Y''\<rparr>] = ''aXYbc''
   \<and> 0 \<le> d_start \<lparr>d_start = 1, d_end = 2, d_text = ''''\<rparr> \<and> d_start \<lparr>d_start = 1, d_end = 2, d_text = ''''\<rparr> \<le> d_end \<lparr>d_start = 1, d_end = 2, d_text = ''''\<rparr>
   \<and> d_end \<lparr>d_start = 1, d_end = 2, d_text = ''''\<rparr> \<le> int (length (applyStringDiff ''abc'' [\<lparr>d_start = 1, d_end = 1, d_text = ''X''\<rparr>]))
   \<and> mergeStringDiffs ''abc'' \<lparr>d_start = 1, d_end = 1, d_text = ''X''\<rparr> \<lparr>d_start = 1, d_end = 2, d_text = ''''\<rparr> = None
   \<and> applyStringDiff ''abc'' [\<lparr>d_start = 1, d_end = 1, d_text = ''X''\<rparr>, \<lparr>d_start = 1, d_end = 2, d_text = ''''\<rparr>] = ''abc''"
proof -
  have a: "0 \<le> d_start \<lparr>d_start = 1, d_end = 1, d_text = ''X''\<rparr>" "d_start \<lparr>d_start = 1, d_end = 1, d_text = ''X''\<rparr> \<le> d_end \<lparr>d_start = 1, d_end = 1, d_text = ''X''\<rparr>" "d_end \<lparr>d_start = 1, d_end = 1, d_text = ''X''\<rparr> \<le> int (length ''abc'')"
    by simp_all
  have b: "0 \<le> d_start \<lparr>d_start = 2, d_end = 2, d_text = ''Y''\<rparr>" "d_start \<lparr>d_start = 2, d_end = 2, d_text = ''Y''\<rparr> \<le> d_end \<lparr>d_start = 2, d_end = 2, d_text = ''Y''\<rparr>"
    "d_end \<lparr>d_start = 2, d_end = 2, d_text = ''Y''\<rparr> \<le> int (length (applyStringDiff ''abc'' [\<lparr>d_start = 1, d_end = 1, d_text = ''X''\<rparr>]))"
    by (simp_all add: applyStringDiff_def apply_one_nonneg)
  have c: "0 \<le> d_start \<lparr>d_start = 1, d_end = 2, d_text = ''''\<rparr>" "d_start \<lparr>d_start = 1, d_end = 2, d_text = ''''\<rparr> \<le> d_end \<lparr>d_start = 1, d_end = 2, d_text = ''''\<rparr>"
    "d_end \<lparr>d_start = 1, d_end = 2, d_text = ''''\<rparr> \<le> int (length (applyStringDiff ''abc'' [\<lparr>d_start = 1, d_end = 1, d_text = ''X''\<rparr>]))"
    by (simp_all add: applyStringDiff_def apply_one_nonneg)
  have m: "mergeStringDiffs ''abc'' \<lparr>d_start = 1, d_end = 1, d_text = ''X''\<rparr> \<lparr>d_start = 2, d_end = 2, d_text = ''Y''\<rparr> = Some \<lparr>d_start = 1, d_end = 1, d_text = ''XY''\<rparr>" by code_simp
  have n: "mergeStringDiffs ''abc'' \<lparr>d_start = 1, d_end = 1, d_text = ''X''\<rparr> \<lparr>d_start = 1, d_end = 2, d_text = ''''\<rparr> = None" by code_simp
  have r: "applyStringDiff ''abc'' [\<lparr>d_start = 1, d_end = 1, d_text = ''X''\<rparr>, \<lparr>d_start = 2, d_end = 2, d_text = ''Y''\<rparr>] = ''aXYbc''" by code_simp
  show ?thesis
    using a b c m n r
      mergeStringDiffs_law [OF a b]
      mergeStringDiffs_law [OF a c]
    by simp
qed

section \<open>Point.transform through a split_node at the point's own path\<close>

text \<open>
  C4. For every point \<open>{path, offset}\<close> and \<open>split_node\<close> operation at that exact path
  with split offset \<open>position\<close>: if \<open>position == offset\<close> and the affinity is \<open>null\<close>,
  \<open>Point.transform\<close> returns \<open>null\<close>; if \<open>position < offset\<close>, or \<open>position == offset\<close>
  with affinity forward, it returns the point at the next sibling path with the offset
  decreased by \<open>position\<close>; otherwise the point is returned unchanged. In particular
  the point \<open>{path: [0], offset: 5}\<close> through a \<open>split_node\<close> at \<open>{path: [0], position:
  3}\<close> with affinity forward yields \<open>{path: [1], offset: 2}\<close>.

  A point refers to a text node, which the root is not, so the path of a point has a
  last index and a next sibling: this is the premise \<open>point_path pt \<noteq> []\<close>.
\<close>

theorem point_transform_split_node:
  assumes "equals op_p (point_path pt)" and "point_path pt \<noteq> []"
  shows
    "(position = offset pt \<and> affinity_of opts = None \<longrightarrow>
        point_transform pt (Node_op (Split_node op_p position)) opts = Inr None)
     \<and> (position < offset pt \<or> (position = offset pt \<and> affinity_of opts = Some Forward) \<longrightarrow>
        point_transform pt (Node_op (Split_node op_p position)) opts
          = Inr (Some \<lparr>point_path = butlast (point_path pt) @ [last (point_path pt) + 1],
                         offset = offset pt - position\<rparr>))
     \<and> (\<not> (position = offset pt \<and> affinity_of opts = None)
        \<and> \<not> (position < offset pt \<or> (position = offset pt \<and> affinity_of opts = Some Forward)) \<longrightarrow>
        point_transform pt (Node_op (Split_node op_p position)) opts = Inr (Some pt))
     \<and> point_transform \<lparr>point_path = [0], offset = 5\<rparr> (Node_op (Split_node [0] 3))
          (Affinity Forward)
        = Inr (Some \<lparr>point_path = [1], offset = 2\<rparr>)"
proof (intro conjI impI)
  assume "position = offset pt \<and> affinity_of opts = None"
  with assms show "point_transform pt (Node_op (Split_node op_p position)) opts = Inr None"
    by (simp add: point_transform_def Let_def)
next
  assume "position < offset pt \<or> (position = offset pt \<and> affinity_of opts = Some Forward)"
  with assms show "point_transform pt (Node_op (Split_node op_p position)) opts
          = Inr (Some \<lparr>point_path = butlast (point_path pt) @ [last (point_path pt) + 1],
                         offset = offset pt - position\<rparr>)"
    by (auto simp: point_transform_def Let_def and_then_def next_path_spec)
next
  assume "\<not> (position = offset pt \<and> affinity_of opts = None)
        \<and> \<not> (position < offset pt \<or> (position = offset pt \<and> affinity_of opts = Some Forward))"
  with assms show "point_transform pt (Node_op (Split_node op_p position)) opts = Inr (Some pt)"
    by (auto simp: point_transform_def Let_def)
next
  show "point_transform \<lparr>point_path = [0], offset = 5\<rparr> (Node_op (Split_node [0] 3))
          (Affinity Forward) = Inr (Some \<lparr>point_path = [1], offset = 2\<rparr>)"
    by code_simp
qed

theorem point_transform_split_node_witness:
  "equals [0] (point_path \<lparr>point_path = [0], offset = 5\<rparr>)
   \<and> point_path \<lparr>point_path = [0], offset = 5\<rparr> \<noteq> []
   \<and> point_transform \<lparr>point_path = [0], offset = 5\<rparr> (Node_op (Split_node [0] 5)) Null
       = Inr None
   \<and> point_transform \<lparr>point_path = [0], offset = 5\<rparr> (Node_op (Split_node [0] 3)) Absent
       = Inr (Some \<lparr>point_path = [1], offset = 2\<rparr>)
   \<and> point_transform \<lparr>point_path = [0], offset = 5\<rparr> (Node_op (Split_node [0] 5))
         (Affinity Backward)
       = Inr (Some \<lparr>point_path = [0], offset = 5\<rparr>)"
proof -
  have h1: "equals [0] (point_path \<lparr>point_path = [0], offset = 5\<rparr>)" by code_simp
  have h2: "point_path \<lparr>point_path = [0], offset = 5\<rparr> \<noteq> []" by simp
  show ?thesis
    using h1 h2
      point_transform_split_node [OF h1 h2, of 5 Null]
      point_transform_split_node [OF h1 h2, of 3 Absent]
      point_transform_split_node [OF h1 h2, of 5 "Affinity Backward"]
    by simp
qed

text \<open>On the root path the second case has no next sibling to return: \<open>Path.next\<close>
  throws.\<close>

lemma point_transform_split_node_root:
  "position < offset pt \<Longrightarrow> point_path pt = [] \<Longrightarrow>
   point_transform pt (Node_op (Split_node [] position)) opts = Inl RootHasNoNext"
  by (simp add: point_transform_def Let_def and_then_def next_path_spec equals_iff)

section \<open>transformTextDiff through a split_node at the diff's own path\<close>

text \<open>
  C3, as stated, returns the diff unchanged whenever \<open>position >= d.diff.end\<close>. An
  insertion (\<open>start = end\<close>) exactly at the split position meets this condition and the
  first one, \<open>position <= d.diff.start\<close>, at once; the code tests the first one first and
  moves the diff to the next sibling.
\<close>

theorem transformTextDiff_split_counterexample:
  "equals [0] (td_path \<lparr>td_id = 7, td_path = [0],
                  td_diff = \<lparr>d_start = 2, d_end = 2, d_text = ''x''\<rparr>\<rparr>)
   \<and> 2 \<ge> d_end (td_diff \<lparr>td_id = 7, td_path = [0],
                  td_diff = \<lparr>d_start = 2, d_end = 2, d_text = ''x''\<rparr>\<rparr>)
   \<and> transformTextDiff
         \<lparr>td_id = 7, td_path = [0], td_diff = \<lparr>d_start = 2, d_end = 2, d_text = ''x''\<rparr>\<rparr>
         (Node_op (Split_node [0] 2))
       \<noteq> Inr (Some \<lparr>td_id = 7, td_path = [0],
                      td_diff = \<lparr>d_start = 2, d_end = 2, d_text = ''x''\<rparr>\<rparr>)"
  by code_simp

text \<open>
  C3, as amended. For every TextDiff \<open>d\<close> and \<open>split_node\<close> operation on the same leaf
  path with split offset \<open>position\<close>: if \<open>position <= d.diff.start\<close>, \<open>transformTextDiff\<close>
  returns the diff re-addressed to the next sibling path with both start and end
  decreased by \<open>position\<close> and the text unchanged; if \<open>d.diff.start < position <
  d.diff.end\<close>, it returns the diff on the original path with its end set to
  \<open>position\<close>; if \<open>position >= d.diff.end\<close> and \<open>position > d.diff.start\<close>, the diff is
  returned unchanged.

  A leaf is not the root, so a leaf path has a last index and a next sibling: this is
  the premise \<open>td_path d \<noteq> []\<close>.
\<close>

theorem transformTextDiff_split_node:
  assumes "equals op_p (td_path d)" and "td_path d \<noteq> []"
  shows
    "(position \<le> d_start (td_diff d) \<longrightarrow>
        transformTextDiff d (Node_op (Split_node op_p position))
          = Inr (Some \<lparr>td_id = td_id d,
                         td_path = butlast (td_path d) @ [last (td_path d) + 1],
                         td_diff = \<lparr>d_start = d_start (td_diff d) - position,
                                    d_end = d_end (td_diff d) - position,
                                    d_text = d_text (td_diff d)\<rparr>\<rparr>))
     \<and> (d_start (td_diff d) < position \<and> position < d_end (td_diff d) \<longrightarrow>
        transformTextDiff d (Node_op (Split_node op_p position))
          = Inr (Some \<lparr>td_id = td_id d, td_path = td_path d,
                         td_diff = \<lparr>d_start = d_start (td_diff d),
                                    d_end = position,
                                    d_text = d_text (td_diff d)\<rparr>\<rparr>))
     \<and> (d_start (td_diff d) < position \<and> d_end (td_diff d) \<le> position \<longrightarrow>
        transformTextDiff d (Node_op (Split_node op_p position)) = Inr (Some d))"
  using assms
  by (auto simp: transformTextDiff_def Let_def and_then_def next_path_spec)


theorem transformTextDiff_split_node_witness:
  "equals [0] (td_path \<lparr>td_id = 7, td_path = [0],
                  td_diff = \<lparr>d_start = 2, d_end = 6, d_text = ''xy''\<rparr>\<rparr>)
   \<and> td_path \<lparr>td_id = 7, td_path = [0],
                  td_diff = \<lparr>d_start = 2, d_end = 6, d_text = ''xy''\<rparr>\<rparr> \<noteq> []
   \<and> transformTextDiff
         \<lparr>td_id = 7, td_path = [0], td_diff = \<lparr>d_start = 2, d_end = 6, d_text = ''xy''\<rparr>\<rparr>
         (Node_op (Split_node [0] 1))
       = Inr (Some \<lparr>td_id = 7, td_path = [1],
                      td_diff = \<lparr>d_start = 1, d_end = 5, d_text = ''xy''\<rparr>\<rparr>)
   \<and> transformTextDiff
         \<lparr>td_id = 7, td_path = [0], td_diff = \<lparr>d_start = 2, d_end = 6, d_text = ''xy''\<rparr>\<rparr>
         (Node_op (Split_node [0] 4))
       = Inr (Some \<lparr>td_id = 7, td_path = [0],
                      td_diff = \<lparr>d_start = 2, d_end = 4, d_text = ''xy''\<rparr>\<rparr>)
   \<and> transformTextDiff
         \<lparr>td_id = 7, td_path = [0], td_diff = \<lparr>d_start = 2, d_end = 6, d_text = ''xy''\<rparr>\<rparr>
         (Node_op (Split_node [0] 6))
       = Inr (Some \<lparr>td_id = 7, td_path = [0],
                      td_diff = \<lparr>d_start = 2, d_end = 6, d_text = ''xy''\<rparr>\<rparr>)"
proof -
  have h1: "equals [0] (td_path \<lparr>td_id = 7, td_path = [0],
                  td_diff = \<lparr>d_start = 2, d_end = 6, d_text = ''xy''\<rparr>\<rparr>)"
    by code_simp
  have h2: "td_path \<lparr>td_id = 7, td_path = [0],
                  td_diff = \<lparr>d_start = 2, d_end = 6, d_text = ''xy''\<rparr>\<rparr> \<noteq> []"
    by simp
  show ?thesis
    using h1 h2
      transformTextDiff_split_node [OF h1 h2, of 1]
      transformTextDiff_split_node [OF h1 h2, of 4]
      transformTextDiff_split_node [OF h1 h2, of 6]
    by simp
qed

section \<open>Collapsed ranges stay collapsed\<close>

text \<open>
  C8. For every collapsed range (anchor equal to focus) and every operation, any
  non-null result of \<open>transformPendingRange\<close> (and of \<open>normalizeRange\<close>) is itself
  collapsed, with the focus exactly equal to the rebased anchor: the focus of a
  collapsed range is not rebased on its own, and anchor and focus never diverge in path
  or offset.
\<close>

theorem collapsed_range_stays_collapsed:
  assumes "isCollapsed r"
  shows
    "(transformPendingRange e r op = Inr (Some r') \<longrightarrow>
        transformPendingPoint e (anchor r) op = Inr (Some (anchor r'))
        \<and> focus r' = anchor r' \<and> isCollapsed r')
     \<and> (normalizeRange e r = Some (Some r'') \<longrightarrow>
        normalizePoint e (anchor r) = Some (Some (anchor r''))
        \<and> focus r'' = anchor r'' \<and> isCollapsed r'')"
  using assms
  by (auto simp: transformPendingRange_def normalizeRange_def isCollapsed_def
      point_equals_def equals_iff split: sum.splits option.splits)

theorem collapsed_range_stays_collapsed_witness:
  "isCollapsed
        \<lparr>anchor = \<lparr>point_path = [0, 1], offset = 7\<rparr>,
         focus = \<lparr>point_path = [0, 1], offset = 7\<rparr>\<rparr>
   \<and> transformPendingRange
        \<lparr>hasPath = (\<lambda>p. True), text_at = (\<lambda>p. Some ''hello''),
         block_above = (\<lambda>p. Some [0]), next_text = (\<lambda>p. Some (''world'', [0, 2])),
         pending_diffs = None\<rparr>
        \<lparr>anchor = \<lparr>point_path = [0, 1], offset = 7\<rparr>,
         focus = \<lparr>point_path = [0, 1], offset = 7\<rparr>\<rparr>
        (Node_op (Merge_node [0, 1] 4))
      = Inr (Some
        \<lparr>anchor = \<lparr>point_path = [0, 0], offset = 11\<rparr>,
         focus = \<lparr>point_path = [0, 0], offset = 11\<rparr>\<rparr>)
   \<and> transformPendingPoint
        \<lparr>hasPath = (\<lambda>p. True), text_at = (\<lambda>p. Some ''hello''),
         block_above = (\<lambda>p. Some [0]), next_text = (\<lambda>p. Some (''world'', [0, 2])),
         pending_diffs = None\<rparr>
        \<lparr>point_path = [0, 1], offset = 7\<rparr>
        (Node_op (Merge_node [0, 1] 4))
      = Inr (Some \<lparr>point_path = [0, 0], offset = 11\<rparr>)
   \<and> normalizeRange
        \<lparr>hasPath = (\<lambda>p. True), text_at = (\<lambda>p. Some ''hello''),
         block_above = (\<lambda>p. Some [0]), next_text = (\<lambda>p. Some (''world'', [0, 2])),
         pending_diffs = None\<rparr>
        \<lparr>anchor = \<lparr>point_path = [0, 1], offset = 7\<rparr>,
         focus = \<lparr>point_path = [0, 1], offset = 7\<rparr>\<rparr>
      = Some (Some
        \<lparr>anchor = \<lparr>point_path = [0, 2], offset = 2\<rparr>,
         focus = \<lparr>point_path = [0, 2], offset = 2\<rparr>\<rparr>)
   \<and> normalizePoint
        \<lparr>hasPath = (\<lambda>p. True), text_at = (\<lambda>p. Some ''hello''),
         block_above = (\<lambda>p. Some [0]), next_text = (\<lambda>p. Some (''world'', [0, 2])),
         pending_diffs = None\<rparr>
        \<lparr>point_path = [0, 1], offset = 7\<rparr>
      = Some (Some \<lparr>point_path = [0, 2], offset = 2\<rparr>)"
proof -
  have h1: "isCollapsed
        \<lparr>anchor = \<lparr>point_path = [0, 1], offset = 7\<rparr>,
         focus = \<lparr>point_path = [0, 1], offset = 7\<rparr>\<rparr>"
    by code_simp
  have h2: "transformPendingRange
        \<lparr>hasPath = (\<lambda>p. True), text_at = (\<lambda>p. Some ''hello''),
         block_above = (\<lambda>p. Some [0]), next_text = (\<lambda>p. Some (''world'', [0, 2])),
         pending_diffs = None\<rparr>
        \<lparr>anchor = \<lparr>point_path = [0, 1], offset = 7\<rparr>,
         focus = \<lparr>point_path = [0, 1], offset = 7\<rparr>\<rparr>
        (Node_op (Merge_node [0, 1] 4))
      = Inr (Some
        \<lparr>anchor = \<lparr>point_path = [0, 0], offset = 11\<rparr>,
         focus = \<lparr>point_path = [0, 0], offset = 11\<rparr>\<rparr>)"
    by code_simp
  have h3: "normalizeRange
        \<lparr>hasPath = (\<lambda>p. True), text_at = (\<lambda>p. Some ''hello''),
         block_above = (\<lambda>p. Some [0]), next_text = (\<lambda>p. Some (''world'', [0, 2])),
         pending_diffs = None\<rparr>
        \<lparr>anchor = \<lparr>point_path = [0, 1], offset = 7\<rparr>,
         focus = \<lparr>point_path = [0, 1], offset = 7\<rparr>\<rparr>
      = Some (Some
        \<lparr>anchor = \<lparr>point_path = [0, 2], offset = 2\<rparr>,
         focus = \<lparr>point_path = [0, 2], offset = 2\<rparr>\<rparr>)"
    by (simp add: normalizeRange_def normalizePoint_def normalizePoint_loop.simps
        isCollapsed_def point_equals_def equals_iff isDescendant_iff)
  show ?thesis
    using h1 h2 h3
      collapsed_range_stays_collapsed [OF h1,
        of "\<lparr>hasPath = (\<lambda>p. True), text_at = (\<lambda>p. Some ''hello''),
         block_above = (\<lambda>p. Some [0]), next_text = (\<lambda>p. Some (''world'', [0, 2])),
         pending_diffs = None\<rparr>"
        "(Node_op (Merge_node [0, 1] 4))"
        "\<lparr>anchor = \<lparr>point_path = [0, 0], offset = 11\<rparr>,
         focus = \<lparr>point_path = [0, 0], offset = 11\<rparr>\<rparr>"
        "\<lparr>anchor = \<lparr>point_path = [0, 2], offset = 2\<rparr>,
         focus = \<lparr>point_path = [0, 2], offset = 2\<rparr>\<rparr>"]
    by simp
qed

end
